theory Spec2Isabelle
  imports Main
begin

section \<open>Strings\<close>

text \<open>
  A JavaScript string is a sequence of UTF-16 code units. Code units are integers here,
  so that the glyph \<open>\<pi>\<close> (U+03C0, code unit 960) is a character like any other.
\<close>

type_synonym jsstring = "int list"

definition str :: "string \<Rightarrow> jsstring" where
  "str s = map of_char s"

definition is_digit :: "int \<Rightarrow> bool" where
  "is_digit c = (48 \<le> c \<and> c \<le> 57)"

text \<open>White space and line terminators of ECMAScript: what \<open>trim\<close> and \<open>Number\<close> strip.\<close>

definition is_ws :: "int \<Rightarrow> bool" where
  "is_ws c = (c \<in> {9, 10, 11, 12, 13, 32, 160, 5760, 8232, 8233, 8239, 8287, 12288, 65279}
              \<or> (8192 \<le> c \<and> c \<le> 8202))"

definition trim :: "jsstring \<Rightarrow> jsstring" where
  "trim s = rev (dropWhile is_ws (rev (dropWhile is_ws s)))"

function digits_of :: "int \<Rightarrow> jsstring" where
  "digits_of n = (if n < 10 then [48 + n] else digits_of (n div 10) @ [48 + n mod 10])"
  by pat_completeness auto
termination
  by (relation "measure nat") auto

declare digits_of.simps [simp del]

function zeros :: "int \<Rightarrow> jsstring" where
  "zeros n = (if n \<le> 0 then [] else 48 # zeros (n - 1))"
  by pat_completeness auto
termination
  by (relation "measure nat") auto

declare zeros.simps [simp del]

definition digits_val :: "jsstring \<Rightarrow> int" where
  "digits_val ds = foldl (\<lambda>a c. 10 * a + (c - 48)) 0 ds"

definition all_digits :: "jsstring \<Rightarrow> bool" where
  "all_digits s = (s \<noteq> [] \<and> list_all is_digit s)"

section \<open>Numbers\<close>

text \<open>
  A JavaScript \<open>number\<close> is an IEEE 754 binary64 value. \<open>Fin m e\<close> is the finite non-zero
  value \<open>m * 2 ^ e\<close> with \<open>m\<close> odd; the Boolean of \<open>Inf\<close> and \<open>Zero\<close> is the sign bit
  (\<open>True\<close> is negative). Every operation computes the exact result on integers and rounds
  it to the nearest binary64 value, ties to even.
\<close>

datatype number = NaN | Inf bool | Zero bool | Fin int int

text \<open>Powers with an integer exponent, by repeated squaring.\<close>

function ipow :: "int \<Rightarrow> int \<Rightarrow> int" where
  "ipow b e =
     (if e \<le> 0 then 1
      else if even e then (let h = ipow b (e div 2) in h * h)
      else b * ipow b (e - 1))"
  by pat_completeness auto
termination
  by (relation "measure (\<lambda>(b, e). nat e)") auto

declare ipow.simps [simp del]

text \<open>The number of binary digits of a positive integer, 64 at a time while it is large.\<close>

function bit_length :: "int \<Rightarrow> int" where
  "bit_length n =
     (if n \<le> 0 then 0
      else if 18446744073709551616 \<le> n then 64 + bit_length (n div 18446744073709551616)
      else 1 + bit_length (n div 2))"
  by pat_completeness auto
termination
  by (relation "measure nat") auto

declare bit_length.simps [simp del]

function strip_zero_bits :: "int \<Rightarrow> int \<Rightarrow> int \<times> int" where
  "strip_zero_bits m e =
     (if m \<noteq> 0 \<and> even m then strip_zero_bits (m div 2) (e + 1) else (m, e))"
  by pat_completeness auto
termination
  by (relation "measure (\<lambda>(m, e). nat \<bar>m\<bar>)") auto

declare strip_zero_bits.simps [simp del]

definition mk_fin :: "bool \<Rightarrow> int \<Rightarrow> int \<Rightarrow> number" where
  "mk_fin sg n u =
     (if n = 0 then Zero sg
      else (case strip_zero_bits n u of (m, e) \<Rightarrow> Fin (if sg then - m else m) e))"

definition round_half_even :: "int \<Rightarrow> int \<Rightarrow> int" where
  "round_half_even p q =
     (let d = p div q; r = p mod q
      in if 2 * r > q \<or> (2 * r = q \<and> odd d) then d + 1 else d)"

text \<open>
  \<open>round64 sg p q\<close> is the binary64 value nearest to the rational \<open>p / q\<close> (\<open>0 \<le> p\<close>,
  \<open>0 < q\<close>), with sign \<open>sg\<close>: 53 bits of precision, gradual underflow below \<open>2 ^ -1022\<close>,
  overflow to infinity from \<open>2 ^ 1024\<close>.
\<close>

definition round64 :: "bool \<Rightarrow> int \<Rightarrow> int \<Rightarrow> number" where
  "round64 sg p q =
     (if p = 0 then Zero sg
      else
        let l = bit_length p - bit_length q;
            e = (if (if l \<ge> 0 then p \<ge> q * ipow 2 l else p * ipow 2 (- l) \<ge> q)
                 then l else l - 1);
            u = max e (- 1022) - 52;
            n = (if u \<ge> 0 then round_half_even p (q * ipow 2 u)
                 else round_half_even (p * ipow 2 (- u)) q)
        in if u \<ge> 971 \<and> n \<ge> ipow 2 (1024 - u) then Inf sg else mk_fin sg n u)"

definition round_dyadic :: "int \<Rightarrow> int \<Rightarrow> number" where
  "round_dyadic m e =
     (if e \<ge> 0 then round64 (m < 0) (\<bar>m\<bar> * ipow 2 e) 1
      else round64 (m < 0) \<bar>m\<bar> (ipow 2 (- e)))"

definition num_of_int :: "int \<Rightarrow> number" where
  "num_of_int i = round64 (i < 0) \<bar>i\<bar> 1"

definition isNaN :: "number \<Rightarrow> bool" where
  "isNaN x = (x = NaN)"

definition isFinite :: "number \<Rightarrow> bool" where
  "isFinite x = (case x of NaN \<Rightarrow> False | Inf _ \<Rightarrow> False | _ \<Rightarrow> True)"

text \<open>Truthiness of a number: everything but \<open>0\<close>, \<open>-0\<close> and \<open>NaN\<close>.\<close>

definition num_truthy :: "number \<Rightarrow> bool" where
  "num_truthy x = (case x of NaN \<Rightarrow> False | Zero _ \<Rightarrow> False | _ \<Rightarrow> True)"

definition sign_of :: "number \<Rightarrow> bool" where
  "sign_of x = (case x of NaN \<Rightarrow> False | Inf s \<Rightarrow> s | Zero s \<Rightarrow> s | Fin m e \<Rightarrow> m < 0)"

text \<open>\<open>x < 0\<close> and \<open>x >= 0\<close>; both are false of \<open>NaN\<close>, and \<open>-0 >= 0\<close>.\<close>

definition num_lt0 :: "number \<Rightarrow> bool" where
  "num_lt0 x = (case x of NaN \<Rightarrow> False | Inf s \<Rightarrow> s | Zero _ \<Rightarrow> False | Fin m e \<Rightarrow> m < 0)"

definition num_ge0 :: "number \<Rightarrow> bool" where
  "num_ge0 x = (case x of NaN \<Rightarrow> False | Inf s \<Rightarrow> \<not> s | Zero _ \<Rightarrow> True | Fin m e \<Rightarrow> 0 < m)"

fun num_neg :: "number \<Rightarrow> number" where
  "num_neg NaN = NaN"
| "num_neg (Inf s) = Inf (\<not> s)"
| "num_neg (Zero s) = Zero (\<not> s)"
| "num_neg (Fin m e) = Fin (- m) e"

fun num_add :: "number \<Rightarrow> number \<Rightarrow> number" where
  "num_add NaN _ = NaN"
| "num_add _ NaN = NaN"
| "num_add (Inf s) (Inf t) = (if s = t then Inf s else NaN)"
| "num_add (Inf s) _ = Inf s"
| "num_add _ (Inf t) = Inf t"
| "num_add (Zero s) (Zero t) = Zero (s \<and> t)"
| "num_add (Zero s) (Fin m e) = Fin m e"
| "num_add (Fin m e) (Zero t) = Fin m e"
| "num_add (Fin m1 e1) (Fin m2 e2) =
     (let e = min e1 e2; m = m1 * ipow 2 (e1 - e) + m2 * ipow 2 (e2 - e)
      in if m = 0 then Zero False else round_dyadic m e)"

definition num_sub :: "number \<Rightarrow> number \<Rightarrow> number" where
  "num_sub x y = num_add x (num_neg y)"

fun num_mul :: "number \<Rightarrow> number \<Rightarrow> number" where
  "num_mul NaN _ = NaN"
| "num_mul _ NaN = NaN"
| "num_mul (Inf s) (Zero t) = NaN"
| "num_mul (Zero s) (Inf t) = NaN"
| "num_mul (Inf s) y = Inf (s \<noteq> sign_of y)"
| "num_mul x (Inf t) = Inf (sign_of x \<noteq> t)"
| "num_mul (Zero s) y = Zero (s \<noteq> sign_of y)"
| "num_mul x (Zero t) = Zero (sign_of x \<noteq> t)"
| "num_mul (Fin m1 e1) (Fin m2 e2) = round_dyadic (m1 * m2) (e1 + e2)"

fun num_div :: "number \<Rightarrow> number \<Rightarrow> number" where
  "num_div NaN _ = NaN"
| "num_div _ NaN = NaN"
| "num_div (Inf s) (Inf t) = NaN"
| "num_div (Inf s) y = Inf (s \<noteq> sign_of y)"
| "num_div x (Inf t) = Zero (sign_of x \<noteq> t)"
| "num_div (Zero s) (Zero t) = NaN"
| "num_div (Zero s) (Fin m e) = Zero (s \<noteq> (m < 0))"
| "num_div (Fin m e) (Zero t) = Inf ((m < 0) \<noteq> t)"
| "num_div (Fin m1 e1) (Fin m2 e2) =
     (if e1 \<ge> e2 then round64 ((m1 < 0) \<noteq> (m2 < 0)) (\<bar>m1\<bar> * ipow 2 (e1 - e2)) \<bar>m2\<bar>
      else round64 ((m1 < 0) \<noteq> (m2 < 0)) \<bar>m1\<bar> (\<bar>m2\<bar> * ipow 2 (e2 - e1)))"

text \<open>Strict equality \<open>===\<close> of numbers: \<open>NaN\<close> equals nothing, \<open>0 === -0\<close>.\<close>

definition num_eq :: "number \<Rightarrow> number \<Rightarrow> bool" where
  "num_eq x y = (case (x, y) of
       (NaN, _) \<Rightarrow> False
     | (_, NaN) \<Rightarrow> False
     | (Zero _, Zero _) \<Rightarrow> True
     | _ \<Rightarrow> x = y)"

text \<open>The constants \<open>Math.E\<close> and \<open>Math.PI\<close>: the binary64 values nearest to e and \<open>\<pi>\<close>.\<close>

definition Math_E :: number where
  "Math_E = Fin 6121026514868073 (- 51)"

definition Math_PI :: number where
  "Math_PI = Fin 884279719003555 (- 48)"

section \<open>Numbers and strings\<close>

text \<open>The magnitude of a finite non-zero number as a fraction of two positive integers.\<close>

definition abs_ratio :: "int \<Rightarrow> int \<Rightarrow> int \<times> int" where
  "abs_ratio m e = (if e \<ge> 0 then (\<bar>m\<bar> * ipow 2 e, 1) else (\<bar>m\<bar>, ipow 2 (- e)))"

text \<open>The value of the decimal literal \<open>mant * 10 ^ ex\<close>, rounded to binary64.\<close>

definition decimal_value :: "bool \<Rightarrow> int \<Rightarrow> int \<Rightarrow> number" where
  "decimal_value sg mant ex =
     (if ex \<ge> 0 then round64 sg (mant * ipow 10 ex) 1 else round64 sg mant (ipow 10 (- ex)))"

function neg_exp :: "int \<Rightarrow> int \<Rightarrow> int" where
  "neg_exp p q = (if p \<le> 0 \<or> p \<ge> q then 0 else 1 + neg_exp (10 * p) q)"
  by pat_completeness auto
termination
  by (relation "measure (\<lambda>(p, q). nat (q - p))") auto

declare neg_exp.simps [simp del]

text \<open>The decimal exponent \<open>d\<close> of \<open>p / q\<close>: \<open>10 ^ (d - 1) \<le> p / q < 10 ^ d\<close>.\<close>

definition dec_exp :: "int \<Rightarrow> int \<Rightarrow> int" where
  "dec_exp p q = (if p \<ge> q then int (length (digits_of (p div q))) else 1 - neg_exp p q)"

text \<open>
  \<open>Number::toString\<close> picks integers \<open>n\<close>, \<open>k\<close>, \<open>s\<close> with \<open>k\<close> digits in \<open>s\<close>, such that
  \<open>s * 10 ^ (n - k)\<close> rounds to the number, \<open>k\<close> as small as possible and then \<open>s\<close> as
  close to the number as possible. \<open>shortest\<close> searches \<open>k\<close> upwards and returns \<open>(s, n)\<close>.
\<close>

definition shortest_at :: "number \<Rightarrow> int \<Rightarrow> int \<Rightarrow> int \<Rightarrow> nat \<Rightarrow> (int \<times> int) option" where
  "shortest_at x p q d k =
     (let sh = d - int k;
          num = (if sh \<ge> 0 then p else p * ipow 10 (- sh));
          den = (if sh \<ge> 0 then q * ipow 10 sh else q);
          s0 = num div den;
          r = num mod den;
          ok0 = (decimal_value False s0 sh = x);
          ok1 = (decimal_value False (s0 + 1) sh = x);
          prefer0 = (2 * r < den \<or> (2 * r = den \<and> even s0))
      in if ok0 \<and> (prefer0 \<or> \<not> ok1) then Some (s0, d)
         else if ok1 then (if s0 + 1 = 10 ^ k then Some (10 ^ (k - 1), d + 1) else Some (s0 + 1, d))
         else if k \<ge> 21 then Some (s0, d)
         else None)"

function shortest :: "number \<Rightarrow> int \<Rightarrow> int \<Rightarrow> int \<Rightarrow> nat \<Rightarrow> int \<times> int" where
  "shortest x p q d k =
     (case shortest_at x p q d k of
        Some sn \<Rightarrow> sn
      | None \<Rightarrow> if k \<ge> 21 then (0, d) else shortest x p q d (Suc k))"
  by pat_completeness auto
termination
  by (relation "measure (\<lambda>(x, p, q, d, k). 21 - k)") auto

declare shortest.simps [simp del]

definition exp_suffix :: "int \<Rightarrow> jsstring" where
  "exp_suffix n = str ''e'' @ (if n - 1 < 0 then str ''-'' else str ''+'') @ digits_of \<bar>n - 1\<bar>"

definition format_digits :: "int \<times> int \<Rightarrow> jsstring" where
  "format_digits sn =
     (case sn of (s, n) \<Rightarrow>
        let digs = digits_of s; k = int (length digs)
        in if k \<le> n \<and> n \<le> 21 then digs @ zeros (n - k)
           else if 0 < n \<and> n \<le> 21 then take (nat n) digs @ str ''.'' @ drop (nat n) digs
           else if - 6 < n \<and> n \<le> 0 then str ''0.'' @ zeros (- n) @ digs
           else if k = 1 then digs @ exp_suffix n
           else take 1 digs @ str ''.'' @ drop 1 digs @ exp_suffix n)"

text \<open>\<open>String(x)\<close> for a number \<open>x\<close>.\<close>

definition num_toString :: "number \<Rightarrow> jsstring" where
  "num_toString x =
     (case x of
        NaN \<Rightarrow> str ''NaN''
      | Zero _ \<Rightarrow> str ''0''
      | Inf s \<Rightarrow> (if s then str ''-Infinity'' else str ''Infinity'')
      | Fin m e \<Rightarrow>
          (case abs_ratio m e of (p, q) \<Rightarrow>
             (if m < 0 then str ''-'' else []) @
             format_digits (shortest (Fin \<bar>m\<bar> e) p q (dec_exp p q) 1)))"

text \<open>
  \<open>x.toFixed(f)\<close> for \<open>0 \<le> f \<le> 100\<close>: the integer \<open>n\<close> nearest to \<open>x * 10 ^ f\<close> (the larger
  one of two), printed with \<open>f\<close> digits after the point; from \<open>10 ^ 21\<close> on, \<open>String(x)\<close>.
\<close>

definition fixed_digits :: "int \<Rightarrow> nat \<Rightarrow> jsstring" where
  "fixed_digits n f =
     (let m = digits_of n
      in if f = 0 then m
         else
           let m' = (if length m \<le> f then zeros (int f + 1 - int (length m)) @ m else m);
               k = length m'
           in take (k - f) m' @ str ''.'' @ drop (k - f) m')"

definition num_toFixed :: "nat \<Rightarrow> number \<Rightarrow> jsstring" where
  "num_toFixed f x =
     (case x of
        NaN \<Rightarrow> str ''NaN''
      | Inf s \<Rightarrow> (if s then str ''-Infinity'' else str ''Infinity'')
      | Zero _ \<Rightarrow> fixed_digits 0 f
      | Fin m e \<Rightarrow>
          (case abs_ratio m e of (p, q) \<Rightarrow>
             (if m < 0 then str ''-'' else []) @
             (if p \<ge> 10 ^ 21 * q then num_toString (Fin \<bar>m\<bar> e)
              else fixed_digits ((2 * p * 10 ^ f + q) div (2 * q)) f)))"

text \<open>
  \<open>Number(s)\<close> for a string \<open>s\<close>: white space is trimmed, the empty string is \<open>0\<close>, and
  the rest must be a decimal literal (sign, digits, fraction, exponent), \<open>Infinity\<close> with
  a sign, or a binary, octal or hexadecimal integer; anything else is \<open>NaN\<close>.
  The literal's value is rounded to the nearest binary64 value.
\<close>

definition parse_exponent :: "jsstring \<Rightarrow> int option" where
  "parse_exponent s =
     (case s of
        [] \<Rightarrow> Some 0
      | c # r \<Rightarrow>
          if c = 101 \<or> c = 69 then
            (case r of
               [] \<Rightarrow> None
             | g # ds \<Rightarrow>
                 if g = 43 then (if all_digits ds then Some (digits_val ds) else None)
                 else if g = 45 then (if all_digits ds then Some (- digits_val ds) else None)
                 else if all_digits r then Some (digits_val r) else None)
          else None)"

definition parse_decimal :: "bool \<Rightarrow> jsstring \<Rightarrow> number" where
  "parse_decimal sg s =
     (if s = str ''Infinity'' then Inf sg
      else
        let ip = takeWhile is_digit s;
            r1 = dropWhile is_digit s;
            fp = (case r1 of [] \<Rightarrow> [] | c # r \<Rightarrow> if c = 46 then takeWhile is_digit r else []);
            r2 = (case r1 of [] \<Rightarrow> [] | c # r \<Rightarrow> if c = 46 then dropWhile is_digit r else r1)
        in if ip = [] \<and> fp = [] then NaN
           else (case parse_exponent r2 of
                   None \<Rightarrow> NaN
                 | Some ex \<Rightarrow> decimal_value sg (digits_val (ip @ fp)) (ex - int (length fp))))"

definition digit_in_base :: "int \<Rightarrow> int \<Rightarrow> int option" where
  "digit_in_base b c =
     (let v = (if 48 \<le> c \<and> c \<le> 57 then c - 48
               else if 97 \<le> c \<and> c \<le> 122 then c - 87
               else if 65 \<le> c \<and> c \<le> 90 then c - 55
               else 99)
      in if v < b then Some v else None)"

definition parse_radix :: "int \<Rightarrow> jsstring \<Rightarrow> number" where
  "parse_radix b ds =
     (if ds \<noteq> [] \<and> list_all (\<lambda>c. digit_in_base b c \<noteq> None) ds
      then num_of_int (foldl (\<lambda>a c. b * a + the (digit_in_base b c)) 0 ds)
      else NaN)"

definition js_Number :: "jsstring \<Rightarrow> number" where
  "js_Number s =
     (case trim s of
        [] \<Rightarrow> Zero False
      | c # r \<Rightarrow>
          if c = 48 \<and> r \<noteq> [] \<and> hd r \<in> {120, 88} then parse_radix 16 (tl r)
          else if c = 48 \<and> r \<noteq> [] \<and> hd r \<in> {111, 79} then parse_radix 8 (tl r)
          else if c = 48 \<and> r \<noteq> [] \<and> hd r \<in> {98, 66} then parse_radix 2 (tl r)
          else if c = 43 then parse_decimal False r
          else if c = 45 then parse_decimal True r
          else parse_decimal False (c # r))"

section \<open>Complex values, errors and outcomes\<close>

record Complex =
  real :: number
  imag :: number

text \<open>
  An operand of type \<open>Complex | Real\<close>: either a Complex value (\<open>C\<close>) or a value of the
  type \<open>Real\<close> (\<open>R\<close>). Inside the evaluator the only \<open>Real\<close> operands are numbers; the
  public operations also take bigints and strings.
\<close>

datatype 'r operand = C Complex | R 'r

text \<open>
  Every \<open>throw new Error(...)\<close> of the source is one constructor:
  \<^item> \<open>InvalidNumber\<close>: "Cannot construct complex number from [real, imag]" (constructor);
  \<^item> \<open>DivisionError nom den\<close>: "Cannot evaluate nom / den" (\<open>div\<close>), with the numerator and
    the denominator of the failing step;
  \<^item> \<open>InvalidExpression toks\<close>: "Invalid expression: ..." of \<open>eval__read_expression\<close>, with
    the offending token followed by the remaining ones;
  \<^item> \<open>ParseError contents toks\<close>: "Invalid expression: ..." of \<open>eval__read_bracket_contents\<close>,
    with the value parsed so far and the remaining tokens;
  \<^item> \<open>RangeError\<close>: \<open>toFixed\<close> with a number of digits outside \<open>0..100\<close>.
\<close>

datatype error =
    InvalidNumber
  | DivisionError Complex Complex
  | InvalidExpression "jsstring list"
  | ParseError Complex "jsstring list"
  | RangeError

text \<open>
  The outcome of a call: \<open>Some (Inr v)\<close> when it returns \<open>v\<close>, \<open>Some (Inl e)\<close> when it throws
  \<open>e\<close>, and \<open>None\<close> when the evaluator's recursion budget is used up before it returns.
\<close>

type_synonym 'a outcome = "(error + 'a) option"

definition returns :: "'a \<Rightarrow> 'a outcome" where
  "returns x = Some (Inr x)"

definition throws :: "error \<Rightarrow> 'a outcome" where
  "throws e = Some (Inl e)"

fun bind :: "'a outcome \<Rightarrow> ('a \<Rightarrow> 'b outcome) \<Rightarrow> 'b outcome" where
  "bind None f = None"
| "bind (Some (Inl e)) f = Some (Inl e)"
| "bind (Some (Inr x)) f = f x"

section \<open>The constructor\<close>

text \<open>
  \<open>new Complex(real, imag)\<close>. The first argument fills \<open>this\<close>: a number sets \<open>real\<close>, a
  Complex is copied, and what a bigint or a string does is the parameter \<open>init\<close> (inside
  the evaluator every \<open>Real\<close> is a number; the public constructor is defined after
  \<open>Complex.eval\<close>, which it calls on strings). A truthy second argument is constructed on
  its own and folded in; the final test throws when a component is \<open>NaN\<close>.
\<close>

definition check_nan :: "Complex \<Rightarrow> Complex outcome" where
  "check_nan this =
     (if isNaN (real this) \<or> isNaN (imag this) then throws InvalidNumber else returns this)"

definition this_from :: "('r \<Rightarrow> Complex outcome) \<Rightarrow> 'r operand option \<Rightarrow> Complex outcome" where
  "this_from init a =
     (case a of
        None \<Rightarrow> returns \<lparr>real = Zero False, imag = Zero False\<rparr>
      | Some (C c) \<Rightarrow> returns \<lparr>real = real c, imag = imag c\<rparr>
      | Some (R r) \<Rightarrow> init r)"

definition operand_truthy :: "('r \<Rightarrow> bool) \<Rightarrow> 'r operand option \<Rightarrow> bool" where
  "operand_truthy truthy a =
     (case a of None \<Rightarrow> False | Some (C c) \<Rightarrow> True | Some (R r) \<Rightarrow> truthy r)"

definition fold_imag :: "Complex \<Rightarrow> Complex \<Rightarrow> Complex" where
  "fold_imag this imag_part =
     (if num_truthy (imag imag_part) \<and> \<not> num_truthy (real imag_part)
      then this\<lparr>imag := num_add (imag this) (imag imag_part)\<rparr>
      else \<lparr>real = num_sub (real this) (imag imag_part),
            imag = num_add (imag this) (real imag_part)\<rparr>)"

text \<open>\<open>new Complex(a)\<close>, with one argument or none.\<close>

definition Complex_new1 :: "('r \<Rightarrow> Complex outcome) \<Rightarrow> 'r operand option \<Rightarrow> Complex outcome" where
  "Complex_new1 init real_arg = bind (this_from init real_arg) check_nan"

definition Complex_new ::
  "('r \<Rightarrow> Complex outcome) \<Rightarrow> ('r \<Rightarrow> bool) \<Rightarrow> 'r operand option \<Rightarrow> 'r operand option
     \<Rightarrow> Complex outcome" where
  "Complex_new init truthy real_arg imag_arg =
     bind (this_from init real_arg) (\<lambda>this.
       if operand_truthy truthy imag_arg
       then bind (Complex_new1 init imag_arg) (\<lambda>imag_part.
              check_nan (fold_imag this imag_part))
       else check_nan this)"

text \<open>The constructor on numbers: \<open>new Complex(x)\<close> and \<open>new Complex(x, y)\<close>.\<close>

definition num_init :: "number \<Rightarrow> Complex outcome" where
  "num_init x = returns \<lparr>real = x, imag = Zero False\<rparr>"

definition new_num :: "number \<Rightarrow> Complex outcome" where
  "new_num x = Complex_new1 num_init (Some (R x))"

definition new_nums :: "number \<Rightarrow> number \<Rightarrow> Complex outcome" where
  "new_nums x y = Complex_new num_init num_truthy (Some (R x)) (Some (R y))"

section \<open>Arithmetic\<close>

text \<open>\<open>n instanceof Complex ? n : new Complex(n)\<close>\<close>

definition to_complex :: "('r \<Rightarrow> Complex outcome) \<Rightarrow> 'r operand \<Rightarrow> Complex outcome" where
  "to_complex init n =
     (case n of C c \<Rightarrow> returns c | R r \<Rightarrow> Complex_new1 init (Some (R r)))"

fun add_loop :: "('r \<Rightarrow> Complex outcome) \<Rightarrow> Complex \<Rightarrow> 'r operand list \<Rightarrow> Complex outcome" where
  "add_loop init newThis [] = returns newThis"
| "add_loop init newThis (n # ns) =
     bind (to_complex init n) (\<lambda>c.
       add_loop init \<lparr>real = num_add (real newThis) (real c),
                      imag = num_add (imag newThis) (imag c)\<rparr> ns)"

definition Complex_add :: "('r \<Rightarrow> Complex outcome) \<Rightarrow> 'r operand list \<Rightarrow> Complex outcome" where
  "Complex_add init numbers =
     bind (Complex_new1 init None) (\<lambda>newThis. add_loop init newThis numbers)"

fun sub_loop :: "('r \<Rightarrow> Complex outcome) \<Rightarrow> Complex \<Rightarrow> 'r operand list \<Rightarrow> Complex outcome" where
  "sub_loop init newThis [] = returns newThis"
| "sub_loop init newThis (n # ns) =
     bind (to_complex init n) (\<lambda>c.
       sub_loop init \<lparr>real = num_sub (real newThis) (real c),
                      imag = num_sub (imag newThis) (imag c)\<rparr> ns)"

definition Complex_sub ::
  "('r \<Rightarrow> Complex outcome) \<Rightarrow> 'r operand \<Rightarrow> 'r operand list \<Rightarrow> Complex outcome" where
  "Complex_sub init Lvalue Rvalues =
     bind (Complex_new1 init (Some Lvalue)) (\<lambda>newThis. sub_loop init newThis Rvalues)"

definition mul_step :: "number \<times> number \<Rightarrow> Complex \<Rightarrow> number \<times> number" where
  "mul_step ri c =
     (case ri of (re, im) \<Rightarrow>
        let rr = num_mul re (real c);
            ri = num_mul re (imag c);
            ir = num_mul im (real c);
            ii = num_mul im (imag c)
        in (num_sub rr ii, num_add ri ir))"

fun mul_loop ::
  "('r \<Rightarrow> Complex outcome) \<Rightarrow> number \<times> number \<Rightarrow> 'r operand list \<Rightarrow> Complex outcome" where
  "mul_loop init ri [] = new_nums (fst ri) (snd ri)"
| "mul_loop init ri (n # ns) =
     bind (to_complex init n) (\<lambda>c. mul_loop init (mul_step ri c) ns)"

definition Complex_mul :: "('r \<Rightarrow> Complex outcome) \<Rightarrow> 'r operand list \<Rightarrow> Complex outcome" where
  "Complex_mul init numbers = mul_loop init (Fin 1 0, Zero False) numbers"

definition div_step :: "number \<times> number \<Rightarrow> Complex \<Rightarrow> number \<times> number" where
  "div_step ri cn =
     (case ri of (a, b) \<Rightarrow>
        let c = real cn;
            d = imag cn;
            den = num_add (num_mul c c) (num_mul d d)
        in (num_div (num_add (num_mul a c) (num_mul b d)) den,
            num_div (num_sub (num_mul b c) (num_mul a d)) den))"

fun div_loop ::
  "('r \<Rightarrow> Complex outcome) \<Rightarrow> number \<times> number \<Rightarrow> 'r operand list \<Rightarrow> Complex outcome" where
  "div_loop init ri [] = new_nums (fst ri) (snd ri)"
| "div_loop init ri (n # ns) =
     bind (to_complex init n) (\<lambda>cn.
       let ri' = div_step ri cn
       in if isNaN (fst ri') \<or> isNaN (snd ri')
          then bind (new_nums (fst ri) (snd ri)) (\<lambda>nom.
                 bind (new_nums (real cn) (imag cn)) (\<lambda>den.
                   throws (DivisionError nom den)))
          else div_loop init ri' ns)"

definition Complex_div ::
  "('r \<Rightarrow> Complex outcome) \<Rightarrow> 'r operand \<Rightarrow> 'r operand list \<Rightarrow> Complex outcome" where
  "Complex_div init Lvalue Rvalues =
     bind (to_complex init Lvalue) (\<lambda>L. div_loop init (real L, imag L) Rvalues)"

section \<open>Transcendental functions\<close>

text \<open>
  The exponentiation operator \<open>**\<close> and the functions of \<open>Math\<close> return
  implementation-approximated values, which the language leaves to the engine. They are
  the fields of a record that every function using them takes as its first argument.
  The last field is \<open>toLowerCase\<close> on a string with a character beyond ASCII, which
  follows the case mappings of the engine's Unicode tables.
\<close>

record host =
  math_pow :: "number \<Rightarrow> number \<Rightarrow> number"
  math_cos :: "number \<Rightarrow> number"
  math_sin :: "number \<Rightarrow> number"
  math_log :: "number \<Rightarrow> number"
  math_atan2 :: "number \<Rightarrow> number \<Rightarrow> number"
  string_lower :: "jsstring \<Rightarrow> jsstring"

definition Complex_abs :: "host \<Rightarrow> Complex \<Rightarrow> number" where
  "Complex_abs M this =
     math_pow M (num_add (num_mul (real this) (real this)) (num_mul (imag this) (imag this)))
       (Fin 1 (- 1))"

definition Complex_angle :: "host \<Rightarrow> Complex \<Rightarrow> number" where
  "Complex_angle M this =
     (let abs = (if num_truthy (Complex_abs M this) then Complex_abs M this else Fin 1 0)
      in math_atan2 M (num_div (imag this) abs) (num_div (real this) abs))"

definition Complex_exp ::
  "host \<Rightarrow> ('r \<Rightarrow> Complex outcome) \<Rightarrow> 'r operand list \<Rightarrow> Complex outcome" where
  "Complex_exp M init terms =
     bind (Complex_mul init terms) (\<lambda>c.
       bind (new_nums (math_cos M (imag c)) (math_sin M (imag c))) (\<lambda>z.
         Complex_mul num_init [C z, R (math_pow M Math_E (real c))]))"

definition Complex_log ::
  "host \<Rightarrow> ('r \<Rightarrow> Complex outcome) \<Rightarrow> 'r operand list \<Rightarrow> Complex outcome" where
  "Complex_log M init terms =
     bind (Complex_mul init terms) (\<lambda>c.
       new_nums (math_log M (Complex_abs M c)) (Complex_angle M c))"

definition Complex_pow ::
  "host \<Rightarrow> ('r \<Rightarrow> Complex outcome) \<Rightarrow> 'r operand \<Rightarrow> 'r operand \<Rightarrow> Complex outcome" where
  "Complex_pow M init root exponent =
     bind (Complex_log M init [root]) (\<lambda>l.
       bind (Complex_mul init [exponent, C l]) (\<lambda>p.
         Complex_exp M init [C p]))"

section \<open>Rendering\<close>

text \<open>\<open>fixed.replace(/\.?0+$/g, "")\<close>: the trailing zeros go, and a point just before them.\<close>

definition strip_zeros :: "jsstring \<Rightarrow> jsstring" where
  "strip_zeros fixed =
     (let r = rev fixed; rest = dropWhile (\<lambda>c. c = 48) r
      in if takeWhile (\<lambda>c. c = 48) r = [] then fixed
         else (case rest of
                 [] \<Rightarrow> []
               | c # rest' \<Rightarrow> if c = 46 then rev rest' else rev rest))"

definition niceround :: "number \<Rightarrow> jsstring" where
  "niceround x =
     (let fixed = num_toFixed 12 x
      in if 46 \<in> set fixed then strip_zeros fixed else fixed)"

definition Complex_toString :: "Complex \<Rightarrow> jsstring" where
  "Complex_toString this =
     (let re = niceround (real this);
          im = niceround (imag this) @ str ''j''
      in if im \<noteq> str ''0j'' \<and> im \<noteq> str ''-0j''
         then (if re \<noteq> str ''0''
               then (if num_ge0 (imag this) then re @ str ''+'' @ im else re @ im)
               else im)
         else re)"

text \<open>
  \<open>toFixed(fractionDigits)\<close>; the argument is \<open>None\<close> for \<open>undefined\<close> (no digits) and an
  integer otherwise. A string is truthy when it is not empty.
\<close>

definition Complex_toFixed :: "Complex \<Rightarrow> int option \<Rightarrow> jsstring outcome" where
  "Complex_toFixed this fractionDigits =
     (let f = (case fractionDigits of None \<Rightarrow> 0 | Some d \<Rightarrow> d)
      in if f < 0 \<or> 100 < f then throws RangeError
         else
           let re = num_toFixed (nat f) (real this);
               im = (if num_truthy (imag this) then num_toFixed (nat f) (imag this) @ str ''j''
                     else [])
           in returns
                (if im \<noteq> []
                 then (if re \<noteq> []
                       then (if num_ge0 (imag this) then re @ str ''+'' @ im else re @ im)
                       else im)
                 else re))"

section \<open>The recursive-descent parser\<close>

text \<open>
  The five functions share the array \<open>parts\<close> and shift tokens off its front; here each
  takes the tokens and returns its value with the tokens that are left. They call each
  other through \<open>call\<close>, which \<open>parse\<close> below closes into a recursion that counts the calls.
\<close>

type_synonym tokens = "jsstring list"

type_synonym parser = "tokens \<Rightarrow> (Complex \<times> tokens) outcome"

datatype level = Expression | Exponentiation | Multiplication | Addition | Bracket_contents

text \<open>\<open>parts[0]\<close>, which is \<open>undefined\<close> on the empty array.\<close>

definition peek :: "tokens \<Rightarrow> jsstring option" where
  "peek parts = (case parts of [] \<Rightarrow> None | t # _ \<Rightarrow> Some t)"

definition eval__part_is_end_of_expression :: "jsstring option \<Rightarrow> bool" where
  "eval__part_is_end_of_expression part =
     (part = Some (str ''+'') \<or> part = Some (str ''-'') \<or> part = Some (str ''*'') \<or>
      part = Some (str ''/'') \<or> part = Some (str ''^'') \<or> part = Some (str '' '') \<or>
      part = Some (str '')'') \<or> part = None)"

text \<open>\<open>while (parts[0] === " ") parts.shift()\<close>\<close>

definition skip_spaces :: "tokens \<Rightarrow> tokens" where
  "skip_spaces parts = dropWhile (\<lambda>t. t = str '' '') parts"

text \<open>The instance method \<open>left.mul(right)\<close> on two Complex values, keeping the tokens.\<close>

definition mul_with :: "Complex \<Rightarrow> Complex \<times> tokens \<Rightarrow> (Complex \<times> tokens) outcome" where
  "mul_with left r =
     bind (Complex_mul num_init [C left, C (fst r)]) (\<lambda>c. returns (c, snd r))"

text \<open>
  \<open>end ? c : Complex.mul(c, Complex.eval__read_expression(parts))\<close>, the tail that four
  branches of \<open>eval__read_expression\<close> share.
\<close>

definition implicit_tail :: "(level \<Rightarrow> parser) \<Rightarrow> Complex \<Rightarrow> tokens \<Rightarrow> (Complex \<times> tokens) outcome" where
  "implicit_tail call c parts =
     (if eval__part_is_end_of_expression (peek parts) then returns (c, parts)
      else bind (call Expression parts) (mul_with c))"

text \<open>
  The argument of \<open>new Complex(...)\<close> for a numeric first token: a following \<open>e\<close>, sign and
  digit run are shifted off and scale the number by a power of ten.
\<close>

definition scientific :: "host \<Rightarrow> number \<Rightarrow> tokens \<Rightarrow> number \<times> tokens" where
  "scientific M first_n parts =
     (case parts of
        e # sg # d # rest \<Rightarrow>
          if e = str ''e'' \<and> (sg = str ''+'' \<or> sg = str ''-'') \<and> all_digits d
          then (num_mul first_n (math_pow M (Fin 5 1) (js_Number (sg @ d))), rest)
          else (first_n, parts)
      | _ \<Rightarrow> (first_n, parts))"

definition eval__read_expression :: "host \<Rightarrow> (level \<Rightarrow> parser) \<Rightarrow> parser" where
  "eval__read_expression M call parts0 =
     (case skip_spaces parts0 of
        [] \<Rightarrow> bind (new_num (Fin 1 0)) (\<lambda>c. returns (c, []))
      | first # parts \<Rightarrow>
          if isNaN (js_Number first) then
            if first = str ''exp'' then
              bind (call Expression parts) (\<lambda>r.
                bind (Complex_exp M num_init [C (fst r)]) (\<lambda>c. returns (c, snd r)))
            else if first = str ''ln'' then
              bind (call Expression parts) (\<lambda>r.
                bind (Complex_log M num_init [C (fst r)]) (\<lambda>c. returns (c, snd r)))
            else if first = str ''e'' then
              bind (new_num Math_E) (\<lambda>c. implicit_tail call c parts)
            else if first = str ''j'' then
              bind (new_nums (Zero False) (Fin 1 0)) (\<lambda>c. implicit_tail call c parts)
            else if first = str ''('' then
              bind (call Bracket_contents parts) (\<lambda>r. implicit_tail call (fst r) (snd r))
            else if first = str ''-'' then
              bind (call Expression parts) (\<lambda>r.
                bind (Complex_mul num_init [C (fst r), R (Fin (- 1) 0)]) (\<lambda>c.
                  implicit_tail call c (snd r)))
            else throws (InvalidExpression (first # parts))
          else
            (case scientific M (js_Number first) parts of (x, parts') \<Rightarrow>
               bind (new_num x) (\<lambda>num. implicit_tail call num parts')))"

definition eval__read_exponentiation :: "host \<Rightarrow> (level \<Rightarrow> parser) \<Rightarrow> parser" where
  "eval__read_exponentiation M call parts0 =
     bind (call Expression parts0) (\<lambda>l.
       let parts = skip_spaces (snd l)
       in if peek parts = Some (str ''^'') then
            bind (call Exponentiation (tl parts)) (\<lambda>r.
              bind (Complex_pow M num_init (C (fst l)) (C (fst r))) (\<lambda>c. returns (c, snd r)))
          else returns (fst l, parts))"

definition eval__read_multiplication :: "host \<Rightarrow> (level \<Rightarrow> parser) \<Rightarrow> parser" where
  "eval__read_multiplication M call parts0 =
     bind (call Exponentiation parts0) (\<lambda>l.
       let parts = skip_spaces (snd l)
       in if peek parts = Some (str ''*'') then
            bind (call Multiplication (tl parts)) (mul_with (fst l))
          else if peek parts = Some (str ''/'') then
            bind (call Exponentiation (tl parts)) (\<lambda>d.
              bind (Complex_div num_init (C (fst l)) [C (fst d)]) (\<lambda>q.
                bind (call Multiplication (snd d)) (mul_with q)))
          else if \<not> eval__part_is_end_of_expression (peek parts) then
            bind (call Expression parts) (\<lambda>r.
              bind (Complex_mul num_init [C (fst l), C (fst r)]) (\<lambda>L.
                call Multiplication
                  (str ''('' # niceround (real L) # str ''+'' # niceround (imag L) # str '')'' #
                   snd r)))
          else returns (fst l, parts))"

definition eval__read_addition :: "host \<Rightarrow> (level \<Rightarrow> parser) \<Rightarrow> parser" where
  "eval__read_addition M call parts0 =
     (let parts = skip_spaces parts0
      in if peek parts = Some (str ''+'') then call Addition (tl parts)
         else if peek parts = Some (str ''-'') then
           bind (call Addition (tl parts)) (\<lambda>r.
             bind (Complex_sub num_init (R (Zero False)) [C (fst r)]) (\<lambda>c. returns (c, snd r)))
         else
           bind (call Multiplication parts) (\<lambda>l.
             let parts' = skip_spaces (snd l)
             in if peek parts' = Some (str ''+'') then
                  bind (call Addition (tl parts')) (\<lambda>r.
                    bind (Complex_add num_init [C (fst l), C (fst r)]) (\<lambda>c. returns (c, snd r)))
                else if peek parts' = Some (str ''-'') then
                  bind (call Multiplication (tl parts')) (\<lambda>r.
                    bind (Complex_sub num_init (C (fst l)) [C (fst r)]) (\<lambda>d.
                      if peek (snd r) = Some (str ''+'') \<or> peek (snd r) = Some (str ''-'')
                      then call Addition (Complex_toString d # snd r)
                      else returns (d, snd r)))
                else returns (fst l, parts')))"

definition eval__read_bracket_contents :: "host \<Rightarrow> (level \<Rightarrow> parser) \<Rightarrow> parser" where
  "eval__read_bracket_contents M call parts0 =
     (let parts = dropWhile (\<lambda>t. t = str '' '' \<or> t = str ''+'') parts0
      in if parts = [] \<or> peek parts = Some (str '')'') then
           bind (new_num (Fin 1 0)) (\<lambda>c. returns (c, parts))
         else
           bind (call Addition (if peek parts = Some (str ''-'') then str ''0'' # parts else parts))
             (\<lambda>r. if peek (snd r) = Some (str '')'') \<or> snd r = []
                  then returns (fst r, tl (snd r))
                  else throws (ParseError (fst r) (snd r))))"

definition parse_step :: "host \<Rightarrow> (level \<Rightarrow> parser) \<Rightarrow> level \<Rightarrow> parser" where
  "parse_step M call l =
     (case l of
        Expression \<Rightarrow> eval__read_expression M call
      | Exponentiation \<Rightarrow> eval__read_exponentiation M call
      | Multiplication \<Rightarrow> eval__read_multiplication M call
      | Addition \<Rightarrow> eval__read_addition M call
      | Bracket_contents \<Rightarrow> eval__read_bracket_contents M call)"

text \<open>
  \<open>parse n M l parts\<close> runs the function of level \<open>l\<close> with at most \<open>n\<close> nested calls; \<open>None\<close>
  says that the budget did not suffice.
\<close>

primrec parse :: "nat \<Rightarrow> host \<Rightarrow> level \<Rightarrow> parser" where
  "parse 0 M l parts = None"
| "parse (Suc n) M l parts = parse_step M (parse n M) l parts"

section \<open>Normalisation and \<open>Complex.eval\<close>\<close>

text \<open>
  \<open>s.replace(re, ...)\<close> with a global regular expression that cannot match the empty
  string: the matcher is tried at every position from the left, gives the length of the
  match there and its replacement, and the scan resumes after the match.
\<close>

type_synonym matcher = "jsstring \<Rightarrow> (nat \<times> jsstring) option"

fun replace_g :: "matcher \<Rightarrow> nat \<Rightarrow> jsstring \<Rightarrow> jsstring" where
  "replace_g m k [] = []"
| "replace_g m (Suc k) (c # cs) = replace_g m k cs"
| "replace_g m 0 (c # cs) =
     (case m (c # cs) of
        Some (len, rep) \<Rightarrow> rep @ replace_g m (len - 1) cs
      | None \<Rightarrow> c # replace_g m 0 cs)"

definition replace :: "matcher \<Rightarrow> jsstring \<Rightarrow> jsstring" where
  "replace m s = replace_g m 0 s"

definition starts_with :: "jsstring \<Rightarrow> jsstring \<Rightarrow> bool" where
  "starts_with pat s = (take (length pat) s = pat)"

text \<open>A pattern that is one of several literal strings, tried in order.\<close>

fun literals :: "jsstring list \<Rightarrow> jsstring \<Rightarrow> matcher" where
  "literals [] rep s = None"
| "literals (pat # pats) rep s =
     (if pat \<noteq> [] \<and> starts_with pat s then Some (length pat, rep) else literals pats rep s)"

text \<open>\<open>/ +/g\<close>\<close>

definition spaces :: matcher where
  "spaces s =
     (let n = length (takeWhile (\<lambda>c. c = 32) s) in if n = 0 then None else Some (n, str '' ''))"

text \<open>\<open>/(\d+)_(\d+)/g\<close> with \<open>"$1$2"\<close>\<close>

definition digits_digits :: matcher where
  "digits_digits s =
     (let d1 = takeWhile is_digit s; r = dropWhile is_digit s; d2 = takeWhile is_digit (drop 1 r)
      in if d1 \<noteq> [] \<and> take 1 r = str ''_'' \<and> d2 \<noteq> []
         then Some (length d1 + 1 + length d2, d1 @ d2) else None)"

text \<open>\<open>/(\d+)_[\,\.]_(\d+)/g\<close> with \<open>"$1.$2"\<close>\<close>

definition digits_point_digits :: matcher where
  "digits_point_digits s =
     (let d1 = takeWhile is_digit s; r = dropWhile is_digit s; d2 = takeWhile is_digit (drop 3 r)
      in if d1 \<noteq> [] \<and> (take 3 r = str ''_,_'' \<or> take 3 r = str ''_._'') \<and> d2 \<noteq> []
         then Some (length d1 + 3 + length d2, d1 @ str ''.'' @ d2) else None)"

text \<open>\<open>split("").join("_")\<close>\<close>

fun join_chars :: "jsstring \<Rightarrow> jsstring" where
  "join_chars [] = []"
| "join_chars [c] = [c]"
| "join_chars (c # cs) = c # 95 # join_chars cs"

text \<open>
  \<open>toLowerCase\<close>: on a string of ASCII characters the letters \<open>A\<close> to \<open>Z\<close> become \<open>a\<close> to
  \<open>z\<close> and nothing else changes; any other string is lower-cased by the host.
\<close>

definition is_ascii :: "int \<Rightarrow> bool" where
  "is_ascii c = (0 \<le> c \<and> c < 128)"

definition ascii_lower :: "int \<Rightarrow> int" where
  "ascii_lower c = (if 65 \<le> c \<and> c \<le> 90 then c + 32 else c)"

definition toLowerCase :: "host \<Rightarrow> jsstring \<Rightarrow> jsstring" where
  "toLowerCase M s = (if list_all is_ascii s then map ascii_lower s else string_lower M s)"

text \<open>The loop that merges digits until the string stops shrinking.\<close>

function merge_digits :: "jsstring \<Rightarrow> jsstring" where
  "merge_digits s =
     (if length (replace digits_digits s) < length s then merge_digits (replace digits_digits s)
      else replace digits_digits s)"
  by pat_completeness auto
termination
  by (relation "measure length") auto

declare merge_digits.simps [simp del]

text \<open>\<open>split("_")\<close>\<close>

fun split_on :: "int \<Rightarrow> jsstring \<Rightarrow> jsstring \<Rightarrow> jsstring list" where
  "split_on d acc [] = [rev acc]"
| "split_on d acc (c # cs) =
     (if c = d then rev acc # split_on d [] cs else split_on d (c # acc) cs)"

definition PI_string :: jsstring where
  "PI_string = num_toString Math_PI"

definition tokenize :: "host \<Rightarrow> jsstring \<Rightarrow> tokens" where
  "tokenize M s =
     (let s1 = replace spaces (toLowerCase M (join_chars (trim s)));
          s2 = merge_digits s1;
          s3 = replace digits_point_digits s2;
          s4 = replace (literals [str ''*_*''] (str ''^'')) s3;
          s5 = replace (literals [[960]] PI_string) s4;
          s6 = replace (literals [str ''p_i''] PI_string) s5;
          s7 = replace (literals [str ''i'', str ''j''] (str ''j'')) s6;
          s8 = replace (literals [str ''-_+''] (str ''-'')) s7;
          s9 = replace (literals [str ''+_-''] (str ''-'')) s8;
          s10 = replace (literals [str ''+_+''] (str ''+'')) s9;
          s11 = replace (literals [str ''-_-''] (str ''+'')) s10;
          s12 = replace (literals [str ''e_x_p'', str ''e_^''] (str ''exp'')) s11;
          s13 = replace (literals [str ''l_o_g'', str ''l_n''] (str ''ln'')) s12
      in filter (\<lambda>a. a \<noteq> []) (split_on 95 [] s13))"

text \<open>
  The argument of the public functions: a number, a bigint or a string (the type \<open>Real\<close>).
\<close>

datatype real_arg = Number number | Bigint int | String jsstring

text \<open>\<open>String(num)\<close>\<close>

definition to_String :: "real_arg operand \<Rightarrow> jsstring" where
  "to_String num =
     (case num of
        C c \<Rightarrow> Complex_toString c
      | R (Number x) \<Rightarrow> num_toString x
      | R (Bigint i) \<Rightarrow> (if i < 0 then str ''-'' @ digits_of (- i) else digits_of i)
      | R (String s) \<Rightarrow> s)"

definition Complex_eval :: "nat \<Rightarrow> host \<Rightarrow> real_arg operand \<Rightarrow> Complex outcome" where
  "Complex_eval n M num =
     bind (parse n M Bracket_contents (tokenize M (to_String num))) (\<lambda>r. returns (fst r))"

section \<open>The public constructor and operations\<close>

definition real_init :: "nat \<Rightarrow> host \<Rightarrow> real_arg \<Rightarrow> Complex outcome" where
  "real_init n M r =
     (case r of
        Number x \<Rightarrow> returns \<lparr>real = x, imag = Zero False\<rparr>
      | Bigint i \<Rightarrow> returns \<lparr>real = num_of_int i, imag = Zero False\<rparr>
      | String s \<Rightarrow> Complex_eval n M (R (String s)))"

definition real_truthy :: "real_arg \<Rightarrow> bool" where
  "real_truthy r =
     (case r of Number x \<Rightarrow> num_truthy x | Bigint i \<Rightarrow> i \<noteq> 0 | String s \<Rightarrow> s \<noteq> [])"

definition Complex_constructor ::
  "nat \<Rightarrow> host \<Rightarrow> real_arg operand option \<Rightarrow> real_arg operand option \<Rightarrow> Complex outcome" where
  "Complex_constructor n M real_arg imag_arg =
     Complex_new (real_init n M) real_truthy real_arg imag_arg"

text \<open>The static operations on operands of type \<open>Complex | Real\<close>.\<close>

definition add :: "nat \<Rightarrow> host \<Rightarrow> real_arg operand list \<Rightarrow> Complex outcome" where
  "add n M numbers = Complex_add (real_init n M) numbers"


definition mul :: "nat \<Rightarrow> host \<Rightarrow> real_arg operand list \<Rightarrow> Complex outcome" where
  "mul n M numbers = Complex_mul (real_init n M) numbers"

definition div' :: "nat \<Rightarrow> host \<Rightarrow> real_arg operand \<Rightarrow> real_arg operand list \<Rightarrow> Complex outcome" where
  "div' n M Lvalue Rvalues = Complex_div (real_init n M) Lvalue Rvalues"

section \<open>A host for running examples\<close>

text \<open>
  The examples below are evaluated with a host whose \<open>**\<close> is exact on a whole exponent
  \<open>k \<ge> 0\<close> (the power is computed on integers and rounded once). Its other numeric
  entries give \<open>NaN\<close> and its \<open>toLowerCase\<close> beyond ASCII changes nothing; no example
  reaches them.
\<close>

definition whole_power :: "number \<Rightarrow> number \<Rightarrow> number" where
  "whole_power x y =
     (case (x, y) of
        (Fin m e, Zero _) \<Rightarrow> Fin 1 0
      | (Fin m e, Fin k j) \<Rightarrow>
          if 0 < k \<and> 0 \<le> j
          then round_dyadic (ipow m (k * ipow 2 j)) (e * (k * ipow 2 j))
          else NaN
      | _ \<Rightarrow> NaN)"

definition example_host :: host where
  "example_host =
     \<lparr>math_pow = whole_power, math_cos = (\<lambda>_. NaN), math_sin = (\<lambda>_. NaN),
      math_log = (\<lambda>_. NaN), math_atan2 = (\<lambda>_ _. NaN), string_lower = (\<lambda>s. s)\<rparr>"

section \<open>The claims as the specification words them\<close>

text \<open>
  The specification's account of the second constructor argument: "if the second
  argument is purely imaginary, its imaginary part is added; otherwise its real part is
  subtracted from \<open>real\<close> and its imaginary part added to \<open>imag\<close>".
\<close>

definition spec_fold_imag :: "Complex \<Rightarrow> Complex \<Rightarrow> Complex" where
  "spec_fold_imag this imag_part =
     (if num_truthy (imag imag_part) \<and> \<not> num_truthy (real imag_part)
      then this\<lparr>imag := num_add (imag this) (imag imag_part)\<rparr>
      else \<lparr>real = num_sub (real this) (real imag_part),
            imag = num_add (imag this) (imag imag_part)\<rparr>)"

section \<open>Outcomes that a larger budget keeps\<close>

text \<open>\<open>le_out m m'\<close>: whatever \<open>m\<close> returns or throws, \<open>m'\<close> does too.\<close>

definition le_out :: "'a outcome \<Rightarrow> 'a outcome \<Rightarrow> bool" where
  "le_out m m' = (m = None \<or> m = m')"

section \<open>Vocabulary of the statements about division\<close>

definition has_NaN :: "number \<times> number \<Rightarrow> bool" where
  "has_NaN ri = (isNaN (fst ri) \<or> isNaN (snd ri))"

text \<open>
  What \<open>new Complex(a, b)\<close> is when neither number is \<open>NaN\<close>: \<open>a + bj\<close>, with a zero \<open>b\<close> of
  either sign giving the imaginary part \<open>+0\<close> (the second argument is then falsy).
\<close>

definition of_parts :: "number \<times> number \<Rightarrow> Complex" where
  "of_parts ri = \<lparr>real = fst ri, imag = (if num_truthy (snd ri) then snd ri else Zero False)\<rparr>"

definition parts_of :: "Complex \<Rightarrow> number \<times> number" where
  "parts_of c = (real c, imag c)"

section \<open>Vocabulary of the statements about the parser\<close>

text \<open>Where the function of a level leaves the tokens when it returns.\<close>

definition stops_at :: "level \<Rightarrow> tokens \<Rightarrow> bool" where
  "stops_at l rest =
     (case l of
        Exponentiation \<Rightarrow> peek rest \<noteq> Some (str '' '') \<and> peek rest \<noteq> Some (str ''^'')
      | Multiplication \<Rightarrow>
          peek rest = None \<or> peek rest = Some (str ''+'') \<or> peek rest = Some (str ''-'') \<or>
          peek rest = Some (str '')'')
      | Addition \<Rightarrow> peek rest = None \<or> peek rest = Some (str '')'')
      | _ \<Rightarrow> True)"

text \<open>
  What \<open>eval__read_bracket_contents\<close> does before it calls the addition level: it shifts
  the leading spaces and \<open>+\<close>, and puts a \<open>0\<close> in front of a leading \<open>-\<close>.
\<close>

definition leading_skipped :: "tokens \<Rightarrow> tokens" where
  "leading_skipped parts = dropWhile (\<lambda>t. t = str '' '' \<or> t = str ''+'') parts"

definition bracket_tokens :: "tokens \<Rightarrow> tokens" where
  "bracket_tokens parts =
     (if peek (leading_skipped parts) = Some (str ''-'') then str ''0'' # leading_skipped parts
      else leading_skipped parts)"

text \<open>The outcome is not the error of \<open>eval__read_bracket_contents\<close>.\<close>

definition no_parse_error :: "'a outcome \<Rightarrow> bool" where
  "no_parse_error m = (case m of Some (Inl (ParseError c toks)) \<Rightarrow> False | _ \<Rightarrow> True)"

section \<open>Vocabulary of the statements about the tokens\<close>





section \<open>Monotonicity in the budget\<close>

lemma le_out_refl [simp]: "le_out m m"
  by (simp add: le_out_def)

lemma le_out_None [simp]: "le_out None m"
  by (simp add: le_out_def)

lemma bind_le_out:
  assumes "le_out m m'" and "\<And>x. le_out (f x) (g x)"
  shows "le_out (bind m f) (bind m' g)"
proof (cases m)
  case None
  then show ?thesis by simp
next
  case (Some a)
  with assms(1) have m': "m' = Some a" by (simp add: le_out_def)
  show ?thesis
  proof (cases a)
    case (Inl e)
    with Some m' show ?thesis by simp
  next
    case (Inr x)
    with Some m' assms(2)[of x] show ?thesis by simp
  qed
qed

lemma implicit_tail_mono:
  assumes "\<And>l p. le_out (call l p) (call' l p)"
  shows "le_out (implicit_tail call c p) (implicit_tail call' c p)"
  by (auto simp: implicit_tail_def intro!: bind_le_out assms)

lemma expression_mono:
  assumes "\<And>l p. le_out (call l p) (call' l p)"
  shows "le_out (eval__read_expression M call p) (eval__read_expression M call' p)"
  unfolding eval__read_expression_def
  by (auto intro!: bind_le_out assms implicit_tail_mono split: list.splits prod.splits)

lemma exponentiation_mono:
  assumes "\<And>l p. le_out (call l p) (call' l p)"
  shows "le_out (eval__read_exponentiation M call p) (eval__read_exponentiation M call' p)"
  unfolding eval__read_exponentiation_def Let_def
  by (auto intro!: bind_le_out assms)

lemma multiplication_mono:
  assumes "\<And>l p. le_out (call l p) (call' l p)"
  shows "le_out (eval__read_multiplication M call p) (eval__read_multiplication M call' p)"
  unfolding eval__read_multiplication_def Let_def
  by (auto intro!: bind_le_out assms)

lemma addition_mono:
  assumes "\<And>l p. le_out (call l p) (call' l p)"
  shows "le_out (eval__read_addition M call p) (eval__read_addition M call' p)"
  unfolding eval__read_addition_def Let_def
  by (auto intro!: bind_le_out assms)

lemma bracket_contents_mono:
  assumes "\<And>l p. le_out (call l p) (call' l p)"
  shows "le_out (eval__read_bracket_contents M call p) (eval__read_bracket_contents M call' p)"
  unfolding eval__read_bracket_contents_def Let_def
  by (auto intro!: bind_le_out assms)

lemma parse_step_mono:
  assumes "\<And>l p. le_out (call l p) (call' l p)"
  shows "le_out (parse_step M call l p) (parse_step M call' l p)"
  by (cases l) (simp_all add: parse_step_def expression_mono exponentiation_mono
      multiplication_mono addition_mono bracket_contents_mono assms)

lemma parse_Suc_mono: "le_out (parse n M l p) (parse (Suc n) M l p)"
proof (induction n arbitrary: l p)
  case 0
  show ?case by simp
next
  case (Suc n)
  show ?case
    using parse_step_mono[of "parse n M" "parse (Suc n) M" M l p, OF Suc] by simp
qed

text \<open>Once a parse has an outcome, every larger budget gives the same outcome.\<close>

lemma parse_mono:
  assumes "n \<le> m" and "parse n M l p = Some r"
  shows "parse m M l p = Some r"
  using assms
proof (induction m)
  case 0
  then show ?case by simp
next
  case (Suc m)
  show ?case
  proof (cases "n = Suc m")
    case True
    with Suc.prems show ?thesis by simp
  next
    case False
    with Suc have "parse m M l p = Some r" by simp
    then show ?thesis
      using parse_Suc_mono[of m M l p] by (simp add: le_out_def)
  qed
qed

lemma Complex_eval_mono:
  assumes "n \<le> m" and "Complex_eval n M x = Some r"
  shows "Complex_eval m M x = Some r"
proof (cases "parse n M Bracket_contents (tokenize M (to_String x))")
  case None
  with assms(2) show ?thesis by (simp add: Complex_eval_def)
next
  case (Some a)
  from parse_mono[OF assms(1) Some] assms(2) Some show ?thesis
    by (simp add: Complex_eval_def)
qed

section \<open>Evaluating the parser on concrete tokens\<close>

lemmas parser_defs = parse_step_def eval__read_expression_def eval__read_exponentiation_def
  eval__read_multiplication_def eval__read_addition_def eval__read_bracket_contents_def
  implicit_tail_def mul_with_def scientific_def skip_spaces_def peek_def
  eval__part_is_end_of_expression_def all_digits_def is_digit_def str_def Let_def

lemmas constructor_defs = new_num_def new_nums_def Complex_new_def Complex_new1_def this_from_def
  operand_truthy_def num_init_def check_nan_def fold_imag_def isNaN_def num_truthy_def
  returns_def throws_def

lemma bind_weak_cong: "m = m' \<Longrightarrow> bind m f = bind m' f"
  by simp

lemma bind_eq_Inr:
  "bind m f = Some (Inr c) \<longleftrightarrow> (\<exists>x. m = Some (Inr x) \<and> f x = Some (Inr c))"
proof (cases m)
  case None
  then show ?thesis by simp
next
  case (Some a)
  then show ?thesis by (cases a) simp_all
qed

section \<open>The identities of the variadic operations\<close>

text \<open>
  C10. \<open>Complex.add()\<close> with no operand returns the zero value and \<open>Complex.mul()\<close> with
  no operand returns the multiplicative identity \<open>1\<close>.
\<close>

theorem add_mul_empty:
  "add n M [] = returns \<lparr>real = Zero False, imag = Zero False\<rparr> \<and>
   mul n M [] = returns \<lparr>real = Fin 1 0, imag = Zero False\<rparr>"
  by (simp add: add_def mul_def Complex_add_def Complex_mul_def constructor_defs)

section \<open>Rendering with \<open>toFixed\<close>\<close>

text \<open>
  C8. \<open>toFixed\<close> keeps a real part that is exactly zero: \<open>new Complex(0, 1).toFixed()\<close> is
  \<open>0+1j\<close>, because its test \<open>real ? ... : imag\<close> is on the string that \<open>toFixed\<close> of the
  real part returns, which is never empty. \<open>toString\<close> renders the same value as \<open>1j\<close>.
\<close>

theorem toFixed_keeps_zero_real:
  "Complex_toFixed \<lparr>real = Zero False, imag = Fin 1 0\<rparr> None = returns (str ''0+1j'') \<and>
   Complex_toString \<lparr>real = Zero False, imag = Fin 1 0\<rparr> = str ''1j''"
  by code_simp

section \<open>Division followed by an operator\<close>

lemma eval_division_chain_7:
  "Complex_eval 7 M (R (String (str ''6/2*3''))) = throws (InvalidExpression [str ''*'', str ''3'']) \<and>
   Complex_eval 7 M (R (String (str ''8/2/2''))) = throws (InvalidExpression [str ''/'', str ''2''])"
  by code_simp

text \<open>
  C4. After \<open>a/b\<close> the multiplication level calls itself on the rest without shifting
  the operator that follows, and the atom level rejects that operator:
  \<open>eval("6/2*3")\<close> and \<open>eval("8/2/2")\<close> throw "Invalid expression", whatever the budget
  from 7 calls on.
\<close>

theorem eval_division_chain_throws:
  "Complex_eval (7 + n) M (R (String (str ''6/2*3''))) =
     throws (InvalidExpression [str ''*'', str ''3'']) \<and>
   Complex_eval (7 + n) M (R (String (str ''8/2/2''))) =
     throws (InvalidExpression [str ''/'', str ''2''])"
  using eval_division_chain_7[of M]
  by (auto simp: throws_def intro: Complex_eval_mono[of 7])

section \<open>Scientific notation\<close>

lemma tokenize_1e3: "tokenize M (str ''1e+3'') = [[49], [101], [43], [51]]"
  by code_simp

lemma js_Number_1: "js_Number [49] = Fin 1 0"
  by code_simp

lemma js_Number_plus_3: "js_Number [43, 51] = Fin 3 0"
  by code_simp

lemma round_dyadic_1000: "round_dyadic 125 3 = Fin 125 3"
  by code_simp

lemma num_of_int_1000: "num_of_int 1000 = Fin 125 3"
  by code_simp

lemma parse_1e3:
  assumes "math_pow M (Fin 5 1) (Fin 3 0) = Fin 125 3"
  shows "parse (Suc (Suc (Suc (Suc (Suc 0))))) M Bracket_contents [[49], [101], [43], [51]] =
         Some (Inr (\<lparr>real = Fin 125 3, imag = Zero False\<rparr>, []))"
  by (simp add: parser_defs constructor_defs js_Number_1 js_Number_plus_3 round_dyadic_1000 assms
      cong: bind_weak_cong prod.case_cong_weak)

text \<open>
  C9. \<open>eval("1e+3")\<close> returns real = 1000, imag = 0: the tokens \<open>e\<close>, \<open>+\<close>, \<open>3\<close> after the
  literal \<open>1\<close> are consumed as a power of ten. The power itself is the host's
  \<open>10 ** 3\<close>, which is \<open>1000\<close> in every engine; the budget is any number of calls from 5 on.
\<close>

theorem eval_scientific_literal:
  assumes "5 \<le> n" and "math_pow M (num_of_int 10) (num_of_int 3) = num_of_int 1000"
  shows "Complex_eval n M (R (String (str ''1e+3''))) =
         returns \<lparr>real = num_of_int 1000, imag = Zero False\<rparr>"
proof -
  have ten: "num_of_int 10 = Fin 5 1" and three: "num_of_int 3 = Fin 3 0"
    by code_simp+
  from assms(2) have pow: "math_pow M (Fin 5 1) (Fin 3 0) = Fin 125 3"
    by (simp add: ten three num_of_int_1000)
  have "Complex_eval (Suc (Suc (Suc (Suc (Suc 0))))) M (R (String (str ''1e+3''))) =
        Some (Inr \<lparr>real = Fin 125 3, imag = Zero False\<rparr>)"
    by (simp add: Complex_eval_def to_String_def tokenize_1e3 parse_1e3[OF pow] returns_def
        del: parse.simps)
  from Complex_eval_mono[OF _ this, of n] assms(1) show ?thesis
    by (simp add: returns_def num_of_int_1000)
qed

theorem eval_scientific_literal_witness:
  "(5::nat) \<le> 5 \<and>
   math_pow example_host (num_of_int 10) (num_of_int 3) = num_of_int 1000 \<and>
   Complex_eval 5 example_host (R (String (str ''1e+3''))) =
     returns \<lparr>real = num_of_int 1000, imag = Zero False\<rparr>"
proof -
  have p: "math_pow example_host (num_of_int 10) (num_of_int 3) = num_of_int 1000"
    by code_simp
  from eval_scientific_literal[OF _ p, of 5] p show ?thesis by simp
qed

section \<open>The constructor\<close>

lemma check_nan_Inr:
  "check_nan x = Some (Inr c) \<longleftrightarrow> c = x \<and> \<not> isNaN (real x) \<and> \<not> isNaN (imag x)"
  by (auto simp: check_nan_def throws_def returns_def)

lemma Complex_new_no_NaN:
  assumes "Complex_new init truthy a b = Some (Inr c)"
  shows "\<not> isNaN (real c) \<and> \<not> isNaN (imag c)"
  using assms by (auto simp: Complex_new_def bind_eq_Inr check_nan_Inr split: if_splits)

text \<open>
  C1, amended. Whatever the arguments, a constructor call that returns gives a value
  with neither component \<open>NaN\<close>; nothing excludes an infinite component. On one number
  \<open>x\<close> the call throws \<open>InvalidNumber\<close> when \<open>x\<close> is \<open>NaN\<close> and returns \<open>x + 0j\<close> otherwise.
\<close>

theorem constructor_no_NaN:
  "(Complex_constructor n M a b = Some (Inr c) \<longrightarrow> \<not> isNaN (real c) \<and> \<not> isNaN (imag c)) \<and>
   Complex_constructor n M (Some (R (Number x))) None =
     (if isNaN x then throws InvalidNumber else returns \<lparr>real = x, imag = Zero False\<rparr>)"
proof
  show "Complex_constructor n M a b = Some (Inr c) \<longrightarrow> \<not> isNaN (real c) \<and> \<not> isNaN (imag c)"
    unfolding Complex_constructor_def using Complex_new_no_NaN by blast
  show "Complex_constructor n M (Some (R (Number x))) None =
     (if isNaN x then throws InvalidNumber else returns \<lparr>real = x, imag = Zero False\<rparr>)"
    by (simp add: Complex_constructor_def real_init_def constructor_defs)
qed

theorem constructor_no_NaN_witness:
  "Complex_constructor 0 example_host (Some (R (Number (Fin 3 0)))) (Some (R (Number (Fin 1 2)))) =
     Some (Inr \<lparr>real = Fin 3 0, imag = Fin 1 2\<rparr>) \<and>
   \<not> isNaN (Fin 3 0) \<and> \<not> isNaN (Fin 1 2)"
proof -
  have e: "Complex_constructor 0 example_host (Some (R (Number (Fin 3 0))))
             (Some (R (Number (Fin 1 2)))) = Some (Inr \<lparr>real = Fin 3 0, imag = Fin 1 2\<rparr>)"
    by code_simp
  from constructor_no_NaN[of 0 example_host "Some (R (Number (Fin 3 0)))"
      "Some (R (Number (Fin 1 2)))" "\<lparr>real = Fin 3 0, imag = Fin 1 2\<rparr>"] e
  show ?thesis by simp
qed

text \<open>
  C1 as stated fails: \<open>new Complex(Infinity)\<close> returns a value whose real component is
  not finite.
\<close>

theorem constructor_finite_counterexample:
  "Complex_constructor 0 example_host (Some (R (Number (Inf False)))) None =
     returns \<lparr>real = Inf False, imag = Zero False\<rparr> \<and>
   \<not> isFinite (real \<lparr>real = Inf False, imag = Zero False\<rparr>)"
  by code_simp

lemma num_sub_zero:
  assumes "\<not> isNaN x"
  shows "num_sub x (Zero False) = x"
  using assms by (cases x) (simp_all add: num_sub_def isNaN_def)

lemma num_add_zero_left:
  assumes "num_truthy y"
  shows "num_add (Zero False) y = y"
  using assms by (cases y) (simp_all add: num_truthy_def)

text \<open>
  C5, amended. With a truthy second argument, constructed on its own as \<open>p\<close>: if \<open>p\<close> is
  purely imaginary its imaginary part is added to \<open>imag\<close>; otherwise the imaginary part
  of \<open>p\<close> is subtracted from \<open>real\<close> and the real part of \<open>p\<close> is added to \<open>imag\<close>. So
  \<open>new Complex(x, y)\<close> on numbers, \<open>x\<close> not \<open>NaN\<close> and \<open>y\<close> truthy, is \<open>x + yj\<close>.
\<close>

theorem constructor_second_argument:
  "(operand_truthy real_truthy b \<and> this_from (real_init n M) a = returns this \<and>
    Complex_new1 (real_init n M) b = returns p \<longrightarrow>
    Complex_constructor n M a b =
      check_nan (if num_truthy (imag p) \<and> \<not> num_truthy (real p)
                 then this\<lparr>imag := num_add (imag this) (imag p)\<rparr>
                 else \<lparr>real = num_sub (real this) (imag p),
                       imag = num_add (imag this) (real p)\<rparr>)) \<and>
   (\<not> isNaN x \<and> num_truthy y \<longrightarrow>
    Complex_constructor n M (Some (R (Number x))) (Some (R (Number y))) =
      returns \<lparr>real = x, imag = y\<rparr>)"
proof (intro conjI impI)
  assume "operand_truthy real_truthy b \<and> this_from (real_init n M) a = returns this \<and>
    Complex_new1 (real_init n M) b = returns p"
  then show "Complex_constructor n M a b =
      check_nan (if num_truthy (imag p) \<and> \<not> num_truthy (real p)
                 then this\<lparr>imag := num_add (imag this) (imag p)\<rparr>
                 else \<lparr>real = num_sub (real this) (imag p),
                       imag = num_add (imag this) (real p)\<rparr>)"
    by (simp add: Complex_constructor_def Complex_new_def fold_imag_def returns_def)
next
  assume xy: "\<not> isNaN x \<and> num_truthy y"
  then have "y \<noteq> NaN" by (auto simp: num_truthy_def)
  with xy show "Complex_constructor n M (Some (R (Number x))) (Some (R (Number y))) =
      returns \<lparr>real = x, imag = y\<rparr>"
    by (simp add: Complex_constructor_def Complex_new_def Complex_new1_def this_from_def
        real_init_def operand_truthy_def real_truthy_def check_nan_def fold_imag_def returns_def
        num_sub_zero num_add_zero_left isNaN_def num_truthy_def)
qed

theorem constructor_second_argument_witness:
  "operand_truthy real_truthy (Some (C \<lparr>real = Fin 3 0, imag = Fin 1 2\<rparr>)) \<and>
   this_from (real_init 0 example_host) (Some (R (Number (Fin 1 0)))) =
     returns \<lparr>real = Fin 1 0, imag = Zero False\<rparr> \<and>
   Complex_new1 (real_init 0 example_host) (Some (C \<lparr>real = Fin 3 0, imag = Fin 1 2\<rparr>)) =
     returns \<lparr>real = Fin 3 0, imag = Fin 1 2\<rparr> \<and>
   Complex_constructor 0 example_host (Some (R (Number (Fin 1 0))))
     (Some (C \<lparr>real = Fin 3 0, imag = Fin 1 2\<rparr>)) =
     returns \<lparr>real = Fin (- 3) 0, imag = Fin 3 0\<rparr> \<and>
   \<not> isNaN (Fin 1 0) \<and> num_truthy (Fin 1 1) \<and>
   Complex_constructor 0 example_host (Some (R (Number (Fin 1 0)))) (Some (R (Number (Fin 1 1)))) =
     returns \<lparr>real = Fin 1 0, imag = Fin 1 1\<rparr>"
proof -
  have h1: "operand_truthy real_truthy (Some (C \<lparr>real = Fin 3 0, imag = Fin 1 2\<rparr>))"
    by code_simp
  have h2: "this_from (real_init 0 example_host) (Some (R (Number (Fin 1 0)))) =
     returns \<lparr>real = Fin 1 0, imag = Zero False\<rparr>"
    by code_simp
  have h3: "Complex_new1 (real_init 0 example_host) (Some (C \<lparr>real = Fin 3 0, imag = Fin 1 2\<rparr>)) =
     returns \<lparr>real = Fin 3 0, imag = Fin 1 2\<rparr>"
    by code_simp
  have v: "check_nan \<lparr>real = num_sub (Fin 1 0) (Fin 1 2), imag = num_add (Zero False) (Fin 3 0)\<rparr> =
     returns \<lparr>real = Fin (- 3) 0, imag = Fin 3 0\<rparr>"
    by code_simp
  have h4: "\<not> isNaN (Fin 1 0)" "num_truthy (Fin 1 1)"
    by code_simp+
  from constructor_second_argument[of "Some (C \<lparr>real = Fin 3 0, imag = Fin 1 2\<rparr>)" 0 example_host
      "Some (R (Number (Fin 1 0)))" "\<lparr>real = Fin 1 0, imag = Zero False\<rparr>"
      "\<lparr>real = Fin 3 0, imag = Fin 1 2\<rparr>" "Fin 1 0" "Fin 1 1"] h1 h2 h3 h4 v
  show ?thesis by (simp add: num_truthy_def)
qed

text \<open>
  C5 as stated fails on \<open>new Complex(1, 2)\<close>: the code returns \<open>1 + 2j\<close>, while
  subtracting the real part of the second argument and adding its imaginary part, as
  the claim words it, gives \<open>-1 + 0j\<close>.
\<close>

theorem constructor_second_argument_counterexample:
  "Complex_constructor 0 example_host (Some (R (Number (Fin 1 0)))) (Some (R (Number (Fin 1 1)))) =
     returns \<lparr>real = Fin 1 0, imag = Fin 1 1\<rparr> \<and>
   Complex_new1 (real_init 0 example_host) (Some (R (Number (Fin 1 1)))) =
     returns \<lparr>real = Fin 1 1, imag = Zero False\<rparr> \<and>
   check_nan (spec_fold_imag \<lparr>real = Fin 1 0, imag = Zero False\<rparr>
                \<lparr>real = Fin 1 1, imag = Zero False\<rparr>) =
     returns \<lparr>real = Fin (- 1) 0, imag = Zero False\<rparr>"
  by code_simp

section \<open>Division\<close>

lemma num_mul_NaN_right [simp]: "num_mul x NaN = NaN"
  by (cases x) simp_all

lemma num_add_NaN_right [simp]: "num_add x NaN = NaN"
  by (cases x) simp_all

lemma num_div_NaN_right [simp]: "num_div x NaN = NaN"
  by (cases x) simp_all

lemma num_sub_NaN [simp]: "num_sub NaN x = NaN" "num_sub x NaN = NaN"
  by (simp_all add: num_sub_def)

lemma new_nums_value:
  assumes "\<not> isNaN x" and "\<not> isNaN y"
  shows "new_nums x y = returns \<lparr>real = x, imag = (if num_truthy y then y else Zero False)\<rparr>"
  using assms
  by (cases y) (simp_all add: constructor_defs num_sub_zero)

lemma new_nums_of_parts:
  assumes "\<not> has_NaN ri"
  shows "new_nums (fst ri) (snd ri) = returns (of_parts ri)"
  using assms by (simp add: has_NaN_def of_parts_def new_nums_value)

text \<open>A \<open>NaN\<close> in the running quotient stays through every further step.\<close>

lemma div_step_keeps_NaN:
  assumes "has_NaN ri"
  shows "has_NaN (div_step ri cn)"
  using assms by (cases ri) (auto simp: has_NaN_def div_step_def Let_def isNaN_def)

lemma foldl_div_step_keeps_NaN:
  assumes "has_NaN ri"
  shows "has_NaN (foldl div_step ri rs)"
  using assms by (induction rs arbitrary: ri) (simp_all add: div_step_keeps_NaN)

lemma div_loop_returns:
  assumes "\<not> has_NaN (foldl div_step ri rs)"
  shows "div_loop init ri (map C rs) = returns (of_parts (foldl div_step ri rs))"
  using assms
proof (induction rs arbitrary: ri)
  case Nil
  then show ?case by (simp add: new_nums_of_parts)
next
  case (Cons cn rs)
  from Cons.prems have "\<not> has_NaN (div_step ri cn)"
    using foldl_div_step_keeps_NaN[of "div_step ri cn" rs] by auto
  with Cons show ?case
    by (simp add: to_complex_def returns_def has_NaN_def Let_def)
qed

lemma div_loop_throws:
  assumes "\<not> has_NaN (foldl div_step ri pre)"
    and "\<not> has_NaN (parts_of d)"
    and "has_NaN (div_step (foldl div_step ri pre) d)"
  shows "div_loop init ri (map C (pre @ d # post)) =
         throws (DivisionError (of_parts (foldl div_step ri pre)) (of_parts (parts_of d)))"
  using assms
proof (induction pre arbitrary: ri)
  case Nil
  then show ?case
    using new_nums_of_parts[of ri] new_nums_of_parts[of "parts_of d"]
    by (simp add: to_complex_def returns_def has_NaN_def Let_def parts_of_def)
next
  case (Cons cn pre)
  from Cons.prems(1) have "\<not> has_NaN (div_step ri cn)"
    using foldl_div_step_keeps_NaN[of "div_step ri cn" pre] by auto
  with Cons show ?case
    by (simp add: to_complex_def returns_def has_NaN_def Let_def)
qed

lemma first_NaN_step:
  assumes "has_NaN (foldl div_step ri rs)" and "\<not> has_NaN ri"
  shows "\<exists>pre d post. rs = pre @ d # post \<and> \<not> has_NaN (foldl div_step ri pre) \<and>
           has_NaN (div_step (foldl div_step ri pre) d)"
  using assms
proof (induction rs arbitrary: ri)
  case Nil
  then show ?case by simp
next
  case (Cons cn rs)
  show ?case
  proof (cases "has_NaN (div_step ri cn)")
    case True
    with Cons.prems(2) have "cn # rs = [] @ cn # rs \<and> \<not> has_NaN (foldl div_step ri []) \<and>
        has_NaN (div_step (foldl div_step ri []) cn)" by simp
    then show ?thesis by blast
  next
    case False
    from Cons.IH[OF _ False] Cons.prems(1)
    obtain pre d post where "rs = pre @ d # post" "\<not> has_NaN (foldl div_step (div_step ri cn) pre)"
      "has_NaN (div_step (foldl div_step (div_step ri cn) pre) d)" by auto
    then have "cn # rs = (cn # pre) @ d # post \<and> \<not> has_NaN (foldl div_step ri (cn # pre)) \<and>
        has_NaN (div_step (foldl div_step ri (cn # pre)) d)" by simp
    then show ?thesis by blast
  qed
qed

lemma div_step_by_zero:
  assumes "\<not> has_NaN ri"
  shows "has_NaN (div_step ri \<lparr>real = Zero s, imag = Zero t\<rparr>)"
proof (cases ri)
  case (Pair a b)
  with assms show ?thesis
    by (cases a; cases b) (simp_all add: has_NaN_def div_step_def Let_def isNaN_def num_sub_def)
qed


text \<open>
  C3, amended. On Complex operands without \<open>NaN\<close>, \<open>div\<close> throws a \<open>DivisionError\<close> exactly
  when a division step yields \<open>NaN\<close> in the real or the imaginary part (the test is
  \<open>isNaN\<close>; an infinite quotient is returned). The error names the numerator and the
  denominator of the first such step. A zero denominator always yields \<open>NaN\<close>, and
  \<open>div(1, 0)\<close> throws the error with numerator 1 and denominator 0.
\<close>

theorem div_throws_iff_NaN:
  assumes "\<not> has_NaN (parts_of L)" and "\<forall>d\<in>set Rs. \<not> has_NaN (parts_of d)"
  shows "((\<exists>nom den. div' n M (C L) (map C Rs) = throws (DivisionError nom den)) \<longleftrightarrow>
            has_NaN (foldl div_step (parts_of L) Rs)) \<and>
         (Rs = pre @ d # post \<and> \<not> has_NaN (foldl div_step (parts_of L) pre) \<and>
            has_NaN (div_step (foldl div_step (parts_of L) pre) d) \<longrightarrow>
          div' n M (C L) (map C Rs) =
            throws (DivisionError (of_parts (foldl div_step (parts_of L) pre))
                      (of_parts (parts_of d)))) \<and>
         div' n M (C L) [C \<lparr>real = Zero s, imag = Zero t\<rparr>] =
           throws (DivisionError (of_parts (parts_of L)) \<lparr>real = Zero s, imag = Zero False\<rparr>) \<and>
         div' n M (R (Number (num_of_int 1))) [R (Number (num_of_int 0))] =
           throws (DivisionError \<lparr>real = num_of_int 1, imag = Zero False\<rparr>
                     \<lparr>real = Zero False, imag = Zero False\<rparr>)"
proof (intro conjI impI)
  have loop: "div' n M (C L) (map C rs) = div_loop (real_init n M) (parts_of L) (map C rs)" for rs
    by (simp add: div'_def Complex_div_def to_complex_def returns_def parts_of_def)
  show "(\<exists>nom den. div' n M (C L) (map C Rs) = throws (DivisionError nom den)) \<longleftrightarrow>
          has_NaN (foldl div_step (parts_of L) Rs)"
  proof
    assume "\<exists>nom den. div' n M (C L) (map C Rs) = throws (DivisionError nom den)"
    then obtain nom den where
      t: "div' n M (C L) (map C Rs) = throws (DivisionError nom den)" by blast
    show "has_NaN (foldl div_step (parts_of L) Rs)"
    proof (rule ccontr)
      assume "\<not> has_NaN (foldl div_step (parts_of L) Rs)"
      from div_loop_returns[OF this, of "real_init n M"] t show False
        by (simp add: loop returns_def throws_def)
    qed
  next
    assume "has_NaN (foldl div_step (parts_of L) Rs)"
    from first_NaN_step[OF this assms(1)] obtain pre d post where
      split: "Rs = pre @ d # post" and ok: "\<not> has_NaN (foldl div_step (parts_of L) pre)"
      and bad: "has_NaN (div_step (foldl div_step (parts_of L) pre) d)" by blast
    from split assms(2) have "\<not> has_NaN (parts_of d)" by simp
    from div_loop_throws[OF ok this bad, of "real_init n M" post]
    have "div' n M (C L) (map C Rs) =
            throws (DivisionError (of_parts (foldl div_step (parts_of L) pre))
                      (of_parts (parts_of d)))"
      unfolding loop split .
    then show "\<exists>nom den. div' n M (C L) (map C Rs) = throws (DivisionError nom den)"
      by blast
  qed
  show "div' n M (C L) (map C Rs) =
          throws (DivisionError (of_parts (foldl div_step (parts_of L) pre))
                    (of_parts (parts_of d)))"
    if h: "Rs = pre @ d # post \<and> \<not> has_NaN (foldl div_step (parts_of L) pre) \<and>
            has_NaN (div_step (foldl div_step (parts_of L) pre) d)"
  proof -
    from h assms(2) have nd: "\<not> has_NaN (parts_of d)" by simp
    from h have split: "Rs = pre @ d # post"
      and ok: "\<not> has_NaN (foldl div_step (parts_of L) pre)"
      and bad: "has_NaN (div_step (foldl div_step (parts_of L) pre) d)" by simp_all
    from div_loop_throws[OF ok nd bad, of "real_init n M" post]
    show ?thesis unfolding loop split .
  qed
  have z: "\<not> has_NaN (parts_of \<lparr>real = Zero s, imag = Zero t\<rparr>)"
    by (simp add: has_NaN_def parts_of_def isNaN_def)
  from div_loop_throws[of "parts_of L" "[]" "\<lparr>real = Zero s, imag = Zero t\<rparr>" "real_init n M" "[]"]
    assms(1) z div_step_by_zero[OF assms(1), of s t]
  show "div' n M (C L) [C \<lparr>real = Zero s, imag = Zero t\<rparr>] =
          throws (DivisionError (of_parts (parts_of L)) \<lparr>real = Zero s, imag = Zero False\<rparr>)"
    using loop[of "[\<lparr>real = Zero s, imag = Zero t\<rparr>]"]
    by (simp add: of_parts_def parts_of_def num_truthy_def)
  have one: "num_of_int 1 = Fin 1 0" and zero: "num_of_int 0 = Zero False"
    by code_simp+
  have "div' n M (R (Number (Fin 1 0))) [R (Number (Zero False))] =
          div' n M (C \<lparr>real = Fin 1 0, imag = Zero False\<rparr>)
            [C \<lparr>real = Zero False, imag = Zero False\<rparr>]"
    by (simp add: div'_def Complex_div_def to_complex_def Complex_new1_def this_from_def
        real_init_def check_nan_def isNaN_def returns_def)
  also have "\<dots> = throws (DivisionError (of_parts (Fin 1 0, Zero False))
                       (of_parts (parts_of \<lparr>real = Zero False, imag = Zero False\<rparr>)))"
    using div_loop_throws[of "(Fin 1 0, Zero False)" "[]" "\<lparr>real = Zero False, imag = Zero False\<rparr>"
        "real_init n M" "[]"]
      div_step_by_zero[of "(Fin 1 0, Zero False)" False False]
    by (simp add: has_NaN_def parts_of_def isNaN_def div'_def Complex_div_def to_complex_def
        returns_def del: div_loop.simps)
  finally show "div' n M (R (Number (num_of_int 1))) [R (Number (num_of_int 0))] =
           throws (DivisionError \<lparr>real = num_of_int 1, imag = Zero False\<rparr>
                     \<lparr>real = Zero False, imag = Zero False\<rparr>)"
    by (simp add: one zero of_parts_def parts_of_def num_truthy_def)
qed

theorem div_throws_iff_NaN_witness:
  "\<not> has_NaN (parts_of \<lparr>real = Fin 3 1, imag = Zero False\<rparr>) \<and>
   \<not> has_NaN (parts_of \<lparr>real = Fin 1 1, imag = Zero False\<rparr>) \<and>
   \<not> has_NaN (parts_of \<lparr>real = Zero False, imag = Zero False\<rparr>) \<and>
   \<not> has_NaN (foldl div_step (parts_of \<lparr>real = Fin 3 1, imag = Zero False\<rparr>)
                [\<lparr>real = Fin 1 1, imag = Zero False\<rparr>]) \<and>
   has_NaN (div_step (foldl div_step (parts_of \<lparr>real = Fin 3 1, imag = Zero False\<rparr>)
                        [\<lparr>real = Fin 1 1, imag = Zero False\<rparr>])
              \<lparr>real = Zero False, imag = Zero False\<rparr>) \<and>
   div' 0 example_host (C \<lparr>real = Fin 3 1, imag = Zero False\<rparr>)
     (map C [\<lparr>real = Fin 1 1, imag = Zero False\<rparr>, \<lparr>real = Zero False, imag = Zero False\<rparr>]) =
     throws (DivisionError \<lparr>real = Fin 3 0, imag = Zero False\<rparr>
               \<lparr>real = Zero False, imag = Zero False\<rparr>)"
proof -
  have h1: "\<not> has_NaN (parts_of \<lparr>real = Fin 3 1, imag = Zero False\<rparr>)"
    by code_simp
  have h2: "\<forall>d\<in>set [\<lparr>real = Fin 1 1, imag = Zero False\<rparr>, \<lparr>real = Zero False, imag = Zero False\<rparr>].
      \<not> has_NaN (parts_of d)"
    by code_simp
  have h3: "\<not> has_NaN (foldl div_step (parts_of \<lparr>real = Fin 3 1, imag = Zero False\<rparr>)
                [\<lparr>real = Fin 1 1, imag = Zero False\<rparr>])"
    by code_simp
  have h4: "has_NaN (div_step (foldl div_step (parts_of \<lparr>real = Fin 3 1, imag = Zero False\<rparr>)
                        [\<lparr>real = Fin 1 1, imag = Zero False\<rparr>])
              \<lparr>real = Zero False, imag = Zero False\<rparr>)"
    by code_simp
  have v: "of_parts (foldl div_step (parts_of \<lparr>real = Fin 3 1, imag = Zero False\<rparr>)
                [\<lparr>real = Fin 1 1, imag = Zero False\<rparr>]) = \<lparr>real = Fin 3 0, imag = Zero False\<rparr>"
     "of_parts (parts_of \<lparr>real = Zero False, imag = Zero False\<rparr>) =
        \<lparr>real = Zero False, imag = Zero False\<rparr>"
    by code_simp+
  from div_throws_iff_NaN[OF h1 h2, of 0 example_host "[\<lparr>real = Fin 1 1, imag = Zero False\<rparr>]"
      "\<lparr>real = Zero False, imag = Zero False\<rparr>" "[]"] h1 h2 h3 h4 v
  show ?thesis by simp
qed


text \<open>
  C3 as stated fails: in \<open>div(2 ** 1023, 0.5)\<close> the division step yields \<open>Infinity\<close>, which
  is not finite, and \<open>div\<close> returns it instead of throwing.
\<close>

theorem div_infinite_counterexample:
  "div' 0 example_host (R (Number (Fin 1 1023))) [R (Number (Fin 1 (- 1)))] =
     returns \<lparr>real = Inf False, imag = Zero False\<rparr> \<and>
   \<not> isFinite (fst (div_step (Fin 1 1023, Zero False) \<lparr>real = Fin 1 (- 1), imag = Zero False\<rparr>))"
proof -
  have step: "div_step (Fin 1 1023, Zero False) \<lparr>real = Fin 1 (- 1), imag = Zero False\<rparr> =
                (Inf False, Zero False)"
    by code_simp
  have "div' 0 example_host (R (Number (Fin 1 1023))) [R (Number (Fin 1 (- 1)))] =
          div_loop (real_init 0 example_host) (Fin 1 1023, Zero False)
            (map C [\<lparr>real = Fin 1 (- 1), imag = Zero False\<rparr>])"
    by (simp add: div'_def Complex_div_def to_complex_def Complex_new1_def this_from_def
        real_init_def check_nan_def isNaN_def returns_def Let_def)
  also have "\<dots> = returns (of_parts (Inf False, Zero False))"
    using div_loop_returns[of "(Fin 1 1023, Zero False)"
        "[\<lparr>real = Fin 1 (- 1), imag = Zero False\<rparr>]" "real_init 0 example_host"]
    by (simp add: step has_NaN_def isNaN_def del: div_loop.simps)
  finally show ?thesis
    by (simp add: step of_parts_def num_truthy_def isFinite_def)
qed

section \<open>Brackets\<close>

lemma npe_None [simp]: "no_parse_error None"
  by (simp add: no_parse_error_def)

lemma npe_returns [simp]: "no_parse_error (returns x)"
  by (simp add: no_parse_error_def returns_def)

lemma npe_throws [simp]:
  "no_parse_error (throws InvalidNumber)"
  "no_parse_error (throws (DivisionError a b))"
  "no_parse_error (throws (InvalidExpression ts))"
  by (simp_all add: no_parse_error_def throws_def)

lemma npe_bind:
  assumes "no_parse_error m" and "\<And>x. m = Some (Inr x) \<Longrightarrow> no_parse_error (f x)"
  shows "no_parse_error (bind m f)"
proof (cases m)
  case None
  then show ?thesis by simp
next
  case (Some a)
  show ?thesis
  proof (cases a)
    case (Inl e)
    with Some assms(1) show ?thesis by (simp add: no_parse_error_def)
  next
    case (Inr x)
    with Some assms(2)[of x] show ?thesis by simp
  qed
qed

lemma npe_check_nan [simp]: "no_parse_error (check_nan c)"
  by (simp add: check_nan_def)

lemma npe_num_init [simp]: "no_parse_error (num_init x)"
  by (simp add: num_init_def)

lemma npe_Complex_new1:
  assumes "\<And>r. no_parse_error (init r)"
  shows "no_parse_error (Complex_new1 init a)"
  unfolding Complex_new1_def this_from_def
  by (auto intro!: npe_bind assms split: option.splits operand.splits)

lemma npe_Complex_new:
  assumes "\<And>r. no_parse_error (init r)"
  shows "no_parse_error (Complex_new init truthy a b)"
  unfolding Complex_new_def this_from_def
  by (auto intro!: npe_bind npe_Complex_new1 assms split: option.splits operand.splits)

lemma npe_new_num [simp]: "no_parse_error (new_num x)"
  by (simp add: new_num_def npe_Complex_new1)

lemma npe_new_nums [simp]: "no_parse_error (new_nums x y)"
  by (simp add: new_nums_def npe_Complex_new)

lemma npe_to_complex:
  assumes "\<And>r. no_parse_error (init r)"
  shows "no_parse_error (to_complex init n)"
  unfolding to_complex_def
  by (auto intro!: npe_Complex_new1 assms split: operand.splits)

lemma npe_add_loop:
  assumes "\<And>r. no_parse_error (init r)"
  shows "no_parse_error (add_loop init c ns)"
  by (induction ns arbitrary: c) (auto intro!: npe_bind npe_to_complex assms)

lemma npe_sub_loop:
  assumes "\<And>r. no_parse_error (init r)"
  shows "no_parse_error (sub_loop init c ns)"
  by (induction ns arbitrary: c) (auto intro!: npe_bind npe_to_complex assms)

lemma npe_mul_loop:
  assumes "\<And>r. no_parse_error (init r)"
  shows "no_parse_error (mul_loop init ri ns)"
proof (induction ns arbitrary: ri)
  case Nil
  show ?case by simp
next
  case (Cons n ns)
  show ?case
    unfolding mul_loop.simps by (intro npe_bind npe_to_complex assms Cons.IH)
qed

lemma npe_div_loop:
  assumes "\<And>r. no_parse_error (init r)"
  shows "no_parse_error (div_loop init ri ns)"
proof (induction ns arbitrary: ri)
  case Nil
  show ?case by simp
next
  case (Cons n ns)
  have "no_parse_error
          (if isNaN (fst (div_step ri cn)) \<or> isNaN (snd (div_step ri cn))
           then bind (new_nums (fst ri) (snd ri)) (\<lambda>nom.
                  bind (new_nums (real cn) (imag cn)) (\<lambda>den. throws (DivisionError nom den)))
           else div_loop init (div_step ri cn) ns)" for cn
    by (simp add: Cons.IH npe_bind)
  then show ?case
    unfolding div_loop.simps Let_def by (intro npe_bind npe_to_complex assms)
qed

lemma npe_Complex_add:
  assumes "\<And>r. no_parse_error (init r)"
  shows "no_parse_error (Complex_add init ns)"
  unfolding Complex_add_def by (intro npe_bind npe_Complex_new1 npe_add_loop assms)

lemma npe_Complex_sub:
  assumes "\<And>r. no_parse_error (init r)"
  shows "no_parse_error (Complex_sub init l ns)"
  unfolding Complex_sub_def by (intro npe_bind npe_Complex_new1 npe_sub_loop assms)

lemma npe_Complex_mul:
  assumes "\<And>r. no_parse_error (init r)"
  shows "no_parse_error (Complex_mul init ns)"
  unfolding Complex_mul_def by (intro npe_mul_loop assms)

lemma npe_Complex_div:
  assumes "\<And>r. no_parse_error (init r)"
  shows "no_parse_error (Complex_div init l ns)"
  unfolding Complex_div_def by (intro npe_bind npe_to_complex npe_div_loop assms)

lemma npe_Complex_exp:
  assumes "\<And>r. no_parse_error (init r)"
  shows "no_parse_error (Complex_exp M init ns)"
  unfolding Complex_exp_def
  by (intro npe_bind npe_Complex_mul npe_new_nums npe_num_init assms)

lemma npe_Complex_log:
  assumes "\<And>r. no_parse_error (init r)"
  shows "no_parse_error (Complex_log M init ns)"
  unfolding Complex_log_def by (intro npe_bind npe_Complex_mul npe_new_nums assms)

lemma npe_Complex_pow:
  assumes "\<And>r. no_parse_error (init r)"
  shows "no_parse_error (Complex_pow M init a b)"
  unfolding Complex_pow_def
  by (intro npe_bind npe_Complex_mul npe_Complex_log npe_Complex_exp assms)

lemmas npe_num_ops =
  npe_Complex_add[of num_init, OF npe_num_init] npe_Complex_sub[of num_init, OF npe_num_init]
  npe_Complex_mul[of num_init, OF npe_num_init] npe_Complex_div[of num_init, OF npe_num_init]
  npe_Complex_exp[of num_init, OF npe_num_init] npe_Complex_log[of num_init, OF npe_num_init]
  npe_Complex_pow[of num_init, OF npe_num_init]

lemma npe_mul_with [simp]: "no_parse_error (mul_with c r)"
  unfolding mul_with_def by (intro npe_bind npe_num_ops npe_returns)

lemma mul_with_rest:
  assumes "mul_with c r = Some (Inr (c', rest))"
  shows "rest = snd r"
  using assms by (auto simp: mul_with_def bind_eq_Inr returns_def)

lemma peek_skip_spaces [simp]: "peek (skip_spaces ps) \<noteq> Some (str '' '')"
proof (induction ps)
  case Nil
  show ?case by (simp add: skip_spaces_def peek_def)
next
  case (Cons t ps)
  then show ?case by (auto simp: skip_spaces_def peek_def)
qed

lemma skip_spaces_id:
  assumes "peek ps \<noteq> Some (str '' '')"
  shows "skip_spaces ps = ps"
  using assms by (cases ps) (auto simp: skip_spaces_def peek_def)

text \<open>
  What a level may assume of the levels it calls: they never throw the bracket error,
  and they stop where \<open>stops_at\<close> says.
\<close>

lemma implicit_tail_npe:
  assumes "\<And>l p. no_parse_error (call l p)"
  shows "no_parse_error (implicit_tail call c p)"
  unfolding implicit_tail_def by (auto intro!: npe_bind assms)

lemma expression_npe:
  assumes "\<And>l p. no_parse_error (call l p)"
  shows "no_parse_error (eval__read_expression M call p)"
  unfolding eval__read_expression_def
  by (auto intro!: npe_bind assms implicit_tail_npe npe_num_ops split: list.splits prod.splits)

lemma exponentiation_npe:
  assumes "\<And>l p. no_parse_error (call l p)"
  shows "no_parse_error (eval__read_exponentiation M call p)"
  unfolding eval__read_exponentiation_def Let_def
  by (auto intro!: npe_bind assms npe_num_ops)

lemma multiplication_npe:
  assumes "\<And>l p. no_parse_error (call l p)"
  shows "no_parse_error (eval__read_multiplication M call p)"
  unfolding eval__read_multiplication_def Let_def
  by (auto intro!: npe_bind assms npe_num_ops)

lemma addition_npe:
  assumes "\<And>l p. no_parse_error (call l p)"
  shows "no_parse_error (eval__read_addition M call p)"
  unfolding eval__read_addition_def Let_def
  by (auto intro!: npe_bind assms npe_num_ops)

lemma bracket_contents_npe:
  assumes "\<And>l p. no_parse_error (call l p)"
    and "\<And>p c rest. call Addition p = Some (Inr (c, rest)) \<Longrightarrow> stops_at Addition rest"
  shows "no_parse_error (eval__read_bracket_contents M call p)"
proof -
  have "no_parse_error (if peek (snd r) = Some (str '')'') \<or> snd r = []
                        then returns (fst r, tl (snd r))
                        else throws (ParseError (fst r) (snd r)))"
    if "call Addition q = Some (Inr r)" for q r
  proof -
    from that assms(2)[of q "fst r" "snd r"] have "stops_at Addition (snd r)" by simp
    then have "peek (snd r) = Some (str '')'') \<or> snd r = []"
      by (cases "snd r") (auto simp: stops_at_def peek_def)
    then show ?thesis by auto
  qed
  then show ?thesis
    unfolding eval__read_bracket_contents_def Let_def
    by (auto intro!: npe_bind assms(1))
qed

lemma exponentiation_stops:
  assumes "\<And>p c rest. call Exponentiation p = Some (Inr (c, rest)) \<Longrightarrow> stops_at Exponentiation rest"
    and "eval__read_exponentiation M call p = Some (Inr (c, rest))"
  shows "stops_at Exponentiation rest"
  using assms(2) unfolding eval__read_exponentiation_def Let_def
  by (auto simp: bind_eq_Inr returns_def stops_at_def split: if_splits dest: assms(1))

lemma multiplication_stops:
  assumes "\<And>p c rest. call Exponentiation p = Some (Inr (c, rest)) \<Longrightarrow> stops_at Exponentiation rest"
    and "\<And>p c rest. call Multiplication p = Some (Inr (c, rest)) \<Longrightarrow> stops_at Multiplication rest"
    and "eval__read_multiplication M call p = Some (Inr (c, rest))"
  shows "stops_at Multiplication rest"
proof -
  from assms(3) obtain l where l: "call Exponentiation p = Some (Inr l)"
    and body: "(let parts = skip_spaces (snd l)
       in if peek parts = Some (str ''*'') then
            bind (call Multiplication (tl parts)) (mul_with (fst l))
          else if peek parts = Some (str ''/'') then
            bind (call Exponentiation (tl parts)) (\<lambda>d.
              bind (Complex_div num_init (C (fst l)) [C (fst d)]) (\<lambda>q.
                bind (call Multiplication (snd d)) (mul_with q)))
          else if \<not> eval__part_is_end_of_expression (peek parts) then
            bind (call Expression parts) (\<lambda>r.
              bind (Complex_mul num_init [C (fst l), C (fst r)]) (\<lambda>L.
                call Multiplication
                  (str ''('' # niceround (real L) # str ''+'' # niceround (imag L) # str '')'' #
                   snd r)))
          else returns (fst l, parts)) = Some (Inr (c, rest))"
    unfolding eval__read_multiplication_def by (auto simp: bind_eq_Inr)
  from assms(1)[of p "fst l" "snd l"] l have el: "stops_at Exponentiation (snd l)" by simp
  then have sk: "skip_spaces (snd l) = snd l" and nc: "peek (snd l) \<noteq> Some (str ''^'')"
    by (simp_all add: stops_at_def skip_spaces_id)
  from body show ?thesis
    unfolding Let_def sk
    by (auto simp: bind_eq_Inr returns_def split: if_splits
        dest!: mul_with_rest dest: assms(2))
      (use nc el in \<open>auto simp: stops_at_def eval__part_is_end_of_expression_def\<close>)
qed

lemma addition_stops:
  assumes "\<And>p c rest. call Multiplication p = Some (Inr (c, rest)) \<Longrightarrow> stops_at Multiplication rest"
    and "\<And>p c rest. call Addition p = Some (Inr (c, rest)) \<Longrightarrow> stops_at Addition rest"
    and "eval__read_addition M call p = Some (Inr (c, rest))"
  shows "stops_at Addition rest"
proof (cases "peek (skip_spaces p) = Some (str ''+'') \<or> peek (skip_spaces p) = Some (str ''-'')")
  case True
  with assms(3) show ?thesis
    unfolding eval__read_addition_def Let_def
    by (auto simp: bind_eq_Inr returns_def split: if_splits dest: assms(2))
next
  case False
  with assms(3) obtain l where l: "call Multiplication (skip_spaces p) = Some (Inr l)"
    and body: "(let parts' = skip_spaces (snd l)
             in if peek parts' = Some (str ''+'') then
                  bind (call Addition (tl parts')) (\<lambda>r.
                    bind (Complex_add num_init [C (fst l), C (fst r)]) (\<lambda>c. returns (c, snd r)))
                else if peek parts' = Some (str ''-'') then
                  bind (call Multiplication (tl parts')) (\<lambda>r.
                    bind (Complex_sub num_init (C (fst l)) [C (fst r)]) (\<lambda>d.
                      if peek (snd r) = Some (str ''+'') \<or> peek (snd r) = Some (str ''-'')
                      then call Addition (Complex_toString d # snd r)
                      else returns (d, snd r)))
                else returns (fst l, parts')) = Some (Inr (c, rest))"
    unfolding eval__read_addition_def Let_def by (auto simp: bind_eq_Inr)
  from assms(1)[of "skip_spaces p" "fst l" "snd l"] l have ml: "stops_at Multiplication (snd l)"
    by simp
  then have sk: "skip_spaces (snd l) = snd l"
    by (intro skip_spaces_id) (auto simp: stops_at_def str_def)
  have r_stop: "stops_at Multiplication (snd r)" if "call Multiplication q = Some (Inr r)" for q r
    using assms(1)[of q "fst r" "snd r"] that by simp
  show ?thesis
  proof (cases "peek (snd l) = Some (str ''+'')")
    case True
    with body show ?thesis
      unfolding Let_def sk by (auto simp: bind_eq_Inr returns_def dest: assms(2))
  next
    case plus: False
    show ?thesis
    proof (cases "peek (snd l) = Some (str ''-'')")
      case True
      with body plus obtain r d where r: "call Multiplication (tl (snd l)) = Some (Inr r)"
        and tail: "(if peek (snd r) = Some (str ''+'') \<or> peek (snd r) = Some (str ''-'')
                    then call Addition (Complex_toString d # snd r)
                    else returns (d, snd r)) = Some (Inr (c, rest))"
        unfolding Let_def sk by (auto simp: bind_eq_Inr)
      show ?thesis
      proof (cases "peek (snd r) = Some (str ''+'') \<or> peek (snd r) = Some (str ''-'')")
        case True
        with tail show ?thesis by (auto dest: assms(2))
      next
        case False
        with tail have "rest = snd r" by (simp add: returns_def)
        with r_stop[OF r] False show ?thesis by (auto simp: stops_at_def)
      qed
    next
      case False
      with body plus have "rest = snd l"
        unfolding Let_def sk by (simp add: returns_def)
      with ml plus False show ?thesis by (auto simp: stops_at_def)
    qed
  qed
qed

lemma parse_good:
  "no_parse_error (parse n M l p) \<and>
   (\<forall>c rest. parse n M l p = Some (Inr (c, rest)) \<longrightarrow> stops_at l rest)"
proof (induction n arbitrary: l p)
  case 0
  show ?case by simp
next
  case (Suc n)
  have npe: "\<And>l p. no_parse_error (parse n M l p)"
    and stop: "\<And>l p c rest. parse n M l p = Some (Inr (c, rest)) \<Longrightarrow> stops_at l rest"
    using Suc by blast+
  show ?case
  proof (cases l)
    case Expression
    then show ?thesis
      by (simp add: parse_step_def expression_npe[of "parse n M", OF npe] stops_at_def)
  next
    case Exponentiation
    then show ?thesis
      using exponentiation_stops[of "parse n M" M p, OF stop]
      by (simp add: parse_step_def exponentiation_npe[of "parse n M", OF npe])
  next
    case Multiplication
    then show ?thesis
      using multiplication_stops[of "parse n M" M p, OF stop stop]
      by (simp add: parse_step_def multiplication_npe[of "parse n M", OF npe])
  next
    case Addition
    then show ?thesis
      using addition_stops[of "parse n M" M p, OF stop stop]
      by (simp add: parse_step_def addition_npe[of "parse n M", OF npe])
  next
    case Bracket_contents
    then show ?thesis
      by (simp add: parse_step_def bracket_contents_npe[of "parse n M", OF npe stop] stops_at_def)
  qed
qed

lemma eval_open_bracket_6:
  "Complex_eval 6 M (R (String (str ''(''))) = returns \<lparr>real = Fin 1 0, imag = Zero False\<rparr>"
  by code_simp

lemma eval_two_brackets_12:
  "Complex_eval 12 M (R (String (str ''(2)(3)''))) =
     returns \<lparr>real = num_of_int 6, imag = Zero False\<rparr>"
  by code_simp

text \<open>
  C2, amended. \<open>Complex.eval\<close> does not reject unbalanced brackets: the error branch of
  bracket-contents is never taken, by any level and on any tokens. The addition level
  always stops at a \<open>)\<close> or at the end of the tokens. Bracket-contents returns \<open>1\<close>
  without shifting anything when nothing or a \<open>)\<close> follows the leading spaces and \<open>+\<close>;
  otherwise it returns the value of the addition level, shifts the \<open>)\<close> that follows
  if there is one, and returns as well when the tokens are exhausted. So \<open>eval("(")\<close>
  returns \<open>1\<close>, the value of the empty bracket, and \<open>eval("(2)(3)")\<close> returns \<open>6\<close>.
\<close>

theorem bracket_error_unreachable:
  "parse n M l parts \<noteq> throws (ParseError c' toks) \<and>
   Complex_eval n M x \<noteq> throws (ParseError c' toks) \<and>
   (parse n M Addition parts = Some (Inr (c, rest)) \<longrightarrow>
      peek rest = None \<or> peek rest = Some (str '')'')) \<and>
   Complex_eval (6 + n) M (R (String (str ''(''))) = returns \<lparr>real = Fin 1 0, imag = Zero False\<rparr> \<and>
   (leading_skipped parts = [] \<or> peek (leading_skipped parts) = Some (str '')'') \<longrightarrow>
      parse (Suc n) M Bracket_contents parts =
        returns (\<lparr>real = Fin 1 0, imag = Zero False\<rparr>, leading_skipped parts)) \<and>
   (leading_skipped parts \<noteq> [] \<and> peek (leading_skipped parts) \<noteq> Some (str '')'') \<and>
    parse n M Addition (bracket_tokens parts) = Some (Inr (c, rest)) \<longrightarrow>
      parse (Suc n) M Bracket_contents parts = returns (c, tl rest) \<and>
      (rest = [] \<or> rest = str '')'' # tl rest)) \<and>
   Complex_eval (12 + n) M (R (String (str ''(2)(3)''))) =
     returns \<lparr>real = num_of_int 6, imag = Zero False\<rparr>"
proof (intro conjI impI)
  from parse_good[of n M l parts] show "parse n M l parts \<noteq> throws (ParseError c' toks)"
    by (auto simp: no_parse_error_def throws_def)
  have "no_parse_error (Complex_eval n M x)"
    unfolding Complex_eval_def using parse_good[of n M] by (intro npe_bind) simp_all
  then show "Complex_eval n M x \<noteq> throws (ParseError c' toks)"
    by (auto simp: no_parse_error_def throws_def)
  show "peek rest = None \<or> peek rest = Some (str '')'')"
    if "parse n M Addition parts = Some (Inr (c, rest))"
    using parse_good[of n M Addition parts] that by (simp add: stops_at_def)
  show "Complex_eval (6 + n) M (R (String (str ''(''))) =
          returns \<lparr>real = Fin 1 0, imag = Zero False\<rparr>"
    using Complex_eval_mono[of 6 "6 + n" M, OF _ eval_open_bracket_6[unfolded returns_def]]
    by (simp add: returns_def)
  show "parse (Suc n) M Bracket_contents parts =
          returns (\<lparr>real = Fin 1 0, imag = Zero False\<rparr>, leading_skipped parts)"
    if "leading_skipped parts = [] \<or> peek (leading_skipped parts) = Some (str '')'')"
    using that
    by (auto simp: parse_step_def eval__read_bracket_contents_def leading_skipped_def
        constructor_defs)
  assume h: "leading_skipped parts \<noteq> [] \<and> peek (leading_skipped parts) \<noteq> Some (str '')'') \<and>
    parse n M Addition (bracket_tokens parts) = Some (Inr (c, rest))"
  from parse_good[of n M Addition "bracket_tokens parts"] h
  have stop: "peek rest = None \<or> peek rest = Some (str '')'')"
    by (simp add: stops_at_def)
  then show "rest = [] \<or> rest = str '')'' # tl rest"
    by (cases rest) (auto simp: peek_def)
  from stop have closed: "peek rest = Some (str '')'') \<or> rest = []"
    by (cases rest) (auto simp: peek_def)
  from h have nonempty: "\<not> (leading_skipped parts = [] \<or>
      peek (leading_skipped parts) = Some (str '')''))"
    by simp
  have "parse (Suc n) M Bracket_contents parts =
          bind (parse n M Addition (bracket_tokens parts))
            (\<lambda>r. if peek (snd r) = Some (str '')'') \<or> snd r = []
                  then returns (fst r, tl (snd r))
                  else throws (ParseError (fst r) (snd r)))"
    unfolding parse.simps parse_step_def level.case eval__read_bracket_contents_def Let_def
      bracket_tokens_def leading_skipped_def[symmetric]
    by (simp only: nonempty if_False)
  with h closed show "parse (Suc n) M Bracket_contents parts = returns (c, tl rest)"
    by simp
next
  show "Complex_eval (12 + n) M (R (String (str ''(2)(3)''))) =
          returns \<lparr>real = num_of_int 6, imag = Zero False\<rparr>"
    using Complex_eval_mono[of 12 "12 + n" M, OF _ eval_two_brackets_12[unfolded returns_def]]
    by (simp add: returns_def)
qed

theorem bracket_error_unreachable_witness:
  "leading_skipped [str ''2'', str '')'', str ''('', str ''3'', str '')''] \<noteq> [] \<and>
   peek (leading_skipped [str ''2'', str '')'', str ''('', str ''3'', str '')'']) =
     Some (str ''2'') \<and>
   bracket_tokens [str ''2'', str '')'', str ''('', str ''3'', str '')''] =
     [str ''2'', str '')'', str ''('', str ''3'', str '')''] \<and>
   parse 4 example_host Addition [str ''2'', str '')'', str ''('', str ''3'', str '')''] =
     Some (Inr (\<lparr>real = Fin 1 1, imag = Zero False\<rparr>, [str '')'', str ''('', str ''3'', str '')''])) \<and>
   peek [str '')'', str ''('', str ''3'', str '')''] = Some (str '')'') \<and>
   parse 5 example_host Bracket_contents [str ''2'', str '')'', str ''('', str ''3'', str '')''] =
     returns (\<lparr>real = Fin 1 1, imag = Zero False\<rparr>, [str ''('', str ''3'', str '')''])"
proof -
  have a: "leading_skipped [str ''2'', str '')'', str ''('', str ''3'', str '')''] \<noteq> []"
    by code_simp
  have b: "peek (leading_skipped [str ''2'', str '')'', str ''('', str ''3'', str '')'']) =
     Some (str ''2'')"
    by code_simp
  have b': "Some (str ''2'') \<noteq> Some (str '')'')"
    by code_simp
  have t: "bracket_tokens [str ''2'', str '')'', str ''('', str ''3'', str '')''] =
     [str ''2'', str '')'', str ''('', str ''3'', str '')'']"
    by code_simp
  have e: "parse 4 example_host Addition [str ''2'', str '')'', str ''('', str ''3'', str '')''] =
     Some (Inr (\<lparr>real = Fin 1 1, imag = Zero False\<rparr>, [str '')'', str ''('', str ''3'', str '')'']))"
    by code_simp
  have p: "peek [str '')'', str ''('', str ''3'', str '')''] \<noteq> None"
    by code_simp
  have five: "(5::nat) = Suc 4"
    by simp
  from bracket_error_unreachable[where n = 4 and M = example_host and l = Addition
      and parts = "[str ''2'', str '')'', str ''('', str ''3'', str '')'']"
      and c = "\<lparr>real = Fin 1 1, imag = Zero False\<rparr>"
      and rest = "[str '')'', str ''('', str ''3'', str '')'']"] a b b' t e p
  show ?thesis unfolding five by simp
qed

text \<open>
  C2 as stated fails: \<open>eval("(")\<close> and \<open>eval(")")\<close>, whose brackets are unbalanced, return
  \<open>1\<close> instead of failing.
\<close>

theorem unbalanced_bracket_counterexample:
  "Complex_eval 6 example_host (R (String (str ''(''))) =
     returns \<lparr>real = Fin 1 0, imag = Zero False\<rparr> \<and>
   Complex_eval 6 example_host (R (String (str '')''))) =
     returns \<lparr>real = Fin 1 0, imag = Zero False\<rparr>"
  by code_simp

section \<open>The tokens of the normalisation\<close>


























section \<open>Rendering and evaluating again\<close>

text \<open>
  C6. The round trip through \<open>toString\<close> and \<open>eval\<close> loses \<open>1.5e30\<close>: \<open>toFixed(12)\<close> of a
  number from \<open>1e21\<close> on is its exponential notation \<open>1.5e+30\<close>, which has a point, so
  \<open>niceround\<close> strips the zeros at its end, those of the exponent. The rendering of
  \<open>new Complex(1.5e30)\<close> is \<open>1.5e+3\<close>, and evaluating it gives \<open>1500\<close>.
\<close>

theorem roundtrip_loses_exponent:
  "js_Number (str ''1.5e30'') = Fin 5329070518200751 48 \<and>
   Complex_constructor 0 example_host (Some (R (Number (Fin 5329070518200751 48)))) None =
     returns \<lparr>real = Fin 5329070518200751 48, imag = Zero False\<rparr> \<and>
   num_toFixed 12 (Fin 5329070518200751 48) = str ''1.5e+30'' \<and>
   Complex_toString \<lparr>real = Fin 5329070518200751 48, imag = Zero False\<rparr> = str ''1.5e+3'' \<and>
   Complex_eval 5 example_host (R (String (str ''1.5e+3''))) =
     returns \<lparr>real = num_of_int 1500, imag = Zero False\<rparr>"
  by code_simp

end
